theory Spec2Isabelle
  imports Main
begin

section \<open>Platform values\<close>

text \<open>
  A JavaScript object is reached through a reference. Two references are the same
  object exactly when their addresses agree; the contents ride along so that the
  properties of the object can be read. Only \<open>Set\<close> membership observes the address.
\<close>

datatype 'a ref = Ref (addr: nat) (deref: 'a)

text \<open>
  The components of a WHATWG \<open>URL\<close>: \<open>protocol\<close> with its colon, \<open>host\<close> (with the port,
  if any), \<open>pathname\<close>, \<open>search\<close> with its question mark and \<open>hash\<close> with its number
  sign, the last two empty when absent. URLs with credentials are not represented.
\<close>

record URL =
  protocol :: string
  host :: string
  pathname :: string
  search :: string
  hash :: string

definition href :: "URL \<Rightarrow> string" where
  "href u = protocol u @ (if host u = [] then [] else ''//'' @ host u) @ pathname u
              @ search u @ hash u"

definition special_scheme :: "string \<Rightarrow> bool" where
  "special_scheme p = (p \<in> {''http:'', ''https:'', ''ftp:'', ''ws:'', ''wss:''})"

section \<open>Exceptions\<close>

text \<open>
  What a \<open>throw\<close> carries: the two error classes the middleware raises itself,
  \<open>RouterError\<close> of the router module, and the plain \<open>Error\<close>. Collaborators outside
  the middleware raise values of the same type.
\<close>

datatype error = TypeError string | RouterError string | Error string

section \<open>The URL parser on absolute paths\<close>

text \<open>
  \<open>new URL(path, base)\<close> is spelled out for the inputs the URL builders normally hand
  it: a base with a special scheme and a path that starts with one slash and consists
  of characters the parser neither escapes nor treats as a delimiter. The parser then
  keeps scheme and host of the base, drops its query and fragment, and walks the
  segments of the path, where a single-dot segment is skipped and a double-dot segment
  removes the segment before it. Every other input is left to \<open>resolveURL\<close> of the
  environment.
\<close>

definition path_char :: "char \<Rightarrow> bool" where
  "path_char c =
     (c \<in> set ''ABCDEFGHIJKLMNOPQRSTUVWXYZabcdefghijklmnopqrstuvwxyz0123456789-._~/%!$&()*+,;=:@'')"

definition plain_absolute_path :: "string \<Rightarrow> bool" where
  "plain_absolute_path p =
     (case p of
        [] \<Rightarrow> False
      | c # cs \<Rightarrow> c = CHR ''/'' \<and> (case cs of [] \<Rightarrow> True | d # ds \<Rightarrow> d \<noteq> CHR ''/'')
                  \<and> list_all path_char p)"

fun split_slash :: "string \<Rightarrow> string list" where
  "split_slash [] = [[]]"
| "split_slash (c # cs) =
     (if c = CHR ''/'' then [] # split_slash cs
      else (case split_slash cs of [] \<Rightarrow> [[c]] | s # ss \<Rightarrow> (c # s) # ss))"

definition single_dot :: "string \<Rightarrow> bool" where
  "single_dot s = (s \<in> {''.'', ''%2e'', ''%2E''})"

definition double_dot :: "string \<Rightarrow> bool" where
  "double_dot s =
     (s \<in> {''..'', ''.%2e'', ''.%2E'', ''%2e.'', ''%2E.'',
            ''%2e%2e'', ''%2e%2E'', ''%2E%2e'', ''%2E%2E''})"

fun path_state :: "string list \<Rightarrow> string list \<Rightarrow> string list" where
  "path_state st [] = st"
| "path_state st [s] =
     (if double_dot s then butlast st @ [[]]
      else if single_dot s then st @ [[]]
      else st @ [s])"
| "path_state st (s # t # ts) =
     path_state (if double_dot s then butlast st else if single_dot s then st else st @ [s])
       (t # ts)"

text \<open>A path none of whose segments is a dot segment.\<close>

definition dot_free :: "string \<Rightarrow> bool" where
  "dot_free p = list_all (\<lambda>s. \<not> single_dot s \<and> \<not> double_dot s) (split_slash (tl p))"

definition normalize_path :: "string \<Rightarrow> string" where
  "normalize_path p = concat (map ((#) CHR ''/'') (path_state [] (split_slash (tl p))))"

section \<open>Vocabulary objects read by the send pipeline\<close>

record Endpoints =
  sharedInbox :: "URL ref option"

record Actor =
  inboxId :: "URL ref option"
  endpoints :: "Endpoints option"

text \<open>
  Of an activity the pipeline reads \<open>id\<close> and \<open>actorId\<close>; the rest of the document is
  carried as is. \<open>clone({id})\<close> is the record update of \<open>id'\<close>.
\<close>

record Activity =
  id' :: "URL option"
  actorId :: "URL option"
  document :: string

section \<open>External collaborators\<close>

text \<open>
  Keys, document loaders and serialised documents are opaque to the middleware.
\<close>

datatype CryptoKey = CryptoKey nat
datatype DocumentLoader = DocumentLoader nat
type_synonym JsonWebKey = string
type_synonym json = string
type_synonym Duration = nat

record Request =
  url :: URL
  req_method :: string
  headers :: "(string \<times> string) list"
  body :: "string option"

record Response =
  status :: nat

definition ok :: "Response \<Rightarrow> bool" where
  "ok response = (200 \<le> status response \<and> status response \<le> 299)"

record CryptographicKey =
  key_id :: "URL option"
  key_owner :: "URL option"

text \<open>
  The functions the middleware imports from the signature, key, vocabulary and runtime
  modules, and what the platform answers: \<open>new URL(string)\<close>, \<open>new URL(string, base)\<close>
  for the inputs that \<open>new_URL\<close> below does not spell out, the \<open>origin\<close> of a URL whose
  scheme is not one of the five with a scheme-host-port origin, \<open>crypto.randomUUID()\<close>
  and \<open>fetch\<close>. Each call that can throw returns a sum. What they answer is up to the
  world the middleware runs in, hence a parameter of the operations below.
\<close>

record env =
  parseURL :: "string \<Rightarrow> error + URL"
  resolveURL :: "string \<Rightarrow> URL \<Rightarrow> error + URL"
  opaqueOrigin :: "URL \<Rightarrow> string"
  importJwk :: "JsonWebKey \<Rightarrow> error + CryptoKey"
  exportJwk :: "CryptoKey \<Rightarrow> error + JsonWebKey"
  validateCryptoKey :: "CryptoKey \<Rightarrow> error option"
  fromJsonLd :: "json \<Rightarrow> DocumentLoader \<Rightarrow> error + Activity"
  toJsonLd :: "Activity \<Rightarrow> DocumentLoader \<Rightarrow> error + json"
  sign :: "Request \<Rightarrow> CryptoKey \<Rightarrow> URL \<Rightarrow> error + Request"
  fetch :: "Request \<Rightarrow> error + Response"
  randomUUID :: string
  verify :: "Request \<Rightarrow> DocumentLoader \<Rightarrow> error + CryptographicKey ref option"
  getKeyOwner :: "CryptographicKey ref \<Rightarrow> DocumentLoader \<Rightarrow> error + Actor ref option"
  kvCache :: DocumentLoader
  getAuthenticatedDocumentLoader :: "URL \<Rightarrow> CryptoKey \<Rightarrow> error + DocumentLoader"

definition origin :: "env \<Rightarrow> URL \<Rightarrow> string" where
  "origin e u =
     (if special_scheme (protocol u) then protocol u @ ''//'' @ host u else opaqueOrigin e u)"

definition new_URL :: "env \<Rightarrow> string \<Rightarrow> URL \<Rightarrow> error + URL" where
  "new_URL e path base =
     (if special_scheme (protocol base) \<and> plain_absolute_path path then
        Inr (base\<lparr>pathname := normalize_path path, search := [], hash := []\<rparr>)
      else resolveURL e path base)"

text \<open>The persisted queue message (queue.ts).\<close>

record OutboxMessage =
  type' :: string
  keyId :: string
  privateKey :: JsonWebKey
  activity :: json
  inbox :: string
  trial :: nat

text \<open>
  What an operation does to the outside, in the order it does it: requests put on the
  network, calls of the document-loading serialisers, queue operations, calls of the
  error handler and of the key pair dispatcher, signature verifications, key owner
  lookups and log lines (the message template, without its line breaks).
\<close>

datatype level = Debug | Info | Err

datatype event =
    Fetch Request
  | ToJsonLd Activity
  | FromJsonLd json
  | Enqueue OutboxMessage "Duration option"
  | Listen
  | OnOutboxError error "Activity option"
  | KeyPairDispatch string
  | Verify Request
  | KeyOwnerLookup "CryptographicKey ref"
  | Log level string

section \<open>send.ts: extractInboxes\<close>

text \<open>
  \<open>Set.prototype.add\<close> on objects: the element is appended unless the very same object
  (same address) is already a member. Insertion order is kept, as iteration observes it.
\<close>

definition js_set_add :: "'a ref list \<Rightarrow> 'a ref \<Rightarrow> 'a ref list" where
  "js_set_add s x = (if addr x \<in> addr ` set s then s else s @ [x])"

record ExtractInboxesParameters =
  recipients :: "Actor list"
  preferSharedInbox :: "bool option"

text \<open>An optional boolean used as a condition: \<open>undefined\<close> is falsy.\<close>

definition truthy :: "bool option \<Rightarrow> bool" where
  "truthy b = (b = Some True)"

text \<open>\<open>recipient.endpoints?.sharedInbox ?? recipient.inboxId\<close>\<close>

definition shared_or_personal :: "Actor \<Rightarrow> URL ref option" where
  "shared_or_personal recipient =
     (case (case endpoints recipient of None \<Rightarrow> None | Some e \<Rightarrow> sharedInbox e) of
        None \<Rightarrow> inboxId recipient
      | Some u \<Rightarrow> Some u)"

definition inbox_of :: "bool option \<Rightarrow> Actor \<Rightarrow> URL ref option" where
  "inbox_of prefer recipient =
     (if truthy prefer then shared_or_personal recipient else inboxId recipient)"

definition extractInboxes :: "ExtractInboxesParameters \<Rightarrow> URL ref list" where
  "extractInboxes params =
     fold (\<lambda>recipient inboxes.
             case inbox_of (preferSharedInbox params) recipient of
               None \<Rightarrow> inboxes
             | Some inbox_url \<Rightarrow> js_set_add inboxes inbox_url)
          (recipients params) []"

section \<open>send.ts: sendActivity\<close>

text \<open>
  One delivery: serialise, build the POST request, sign it, put it on the network. The
  result is \<open>response.ok\<close>. The events are those up to the point where it returns or
  throws.
\<close>

definition sendActivity ::
  "env \<Rightarrow> Activity \<Rightarrow> CryptoKey \<Rightarrow> URL \<Rightarrow> URL \<Rightarrow> DocumentLoader \<Rightarrow> event list \<times> (error + bool)"
where
  "sendActivity e act privKey kid inbox_url loader =
     (if actorId act = None then
        ([], Inl (TypeError ''The activity to send must have at least one actor property.''))
      else
        case toJsonLd e act loader of
          Inl err \<Rightarrow> ([ToJsonLd act], Inl err)
        | Inr jsonLd \<Rightarrow>
            let request = \<lparr>url = inbox_url, req_method = ''POST'',
                            headers = [(''Content-Type'', ''application/ld+json'')],
                            body = Some jsonLd\<rparr>
            in case sign e request privKey kid of
                 Inl err \<Rightarrow> ([ToJsonLd act], Inl err)
               | Inr signed \<Rightarrow>
                   (case fetch e signed of
                      Inl err \<Rightarrow> ([ToJsonLd act, Fetch signed], Inl err)
                    | Inr response \<Rightarrow> ([ToJsonLd act, Fetch signed], Inr (ok response))))"

section \<open>router.ts\<close>

text \<open>
  Modelled from the spec: the \<open>Router\<close> class of router.ts, which is not among the
  sources. A route is a name with a URI template restricted to simple \<open>{var}\<close>
  expansions; a template is read as a sequence of literal runs and variables.
\<close>

datatype part = Lit string | Var string

definition lit :: "string \<Rightarrow> part list" where
  "lit s = (if s = [] then [] else [Lit s])"

text \<open>
  Modelled from the spec: parsing of a template. The flag says whether the scan is inside
  braces; \<open>acc\<close> is the literal run or the variable name read so far. A brace that does
  not pair up, or an empty name, makes the template malformed.
\<close>

fun parse_template :: "bool \<Rightarrow> string \<Rightarrow> string \<Rightarrow> part list option" where
  "parse_template False acc [] = Some (lit acc)"
| "parse_template True acc [] = None"
| "parse_template False acc (c # cs) =
     (if c = CHR ''{'' then map_option ((@) (lit acc)) (parse_template True [] cs)
      else if c = CHR ''}'' then None
      else parse_template False (acc @ [c]) cs)"
| "parse_template True acc (c # cs) =
     (if c = CHR ''}'' then
        (if acc = [] then None else map_option ((#) (Var acc)) (parse_template False [] cs))
      else if c = CHR ''{'' then None
      else parse_template True (acc @ [c]) cs)"

text \<open>
  Modelled from the spec: the variable names of a template, as the \<open>Set\<close> of strings
  that \<open>add\<close> returns: each name once, in the order of first occurrence.
\<close>

fun variables :: "part list \<Rightarrow> string list" where
  "variables [] = []"
| "variables (Lit l # ps) = variables ps"
| "variables (Var v # ps) = v # removeAll v (variables ps)"

record Router =
  routes :: "(string \<times> part list) list"

text \<open>Modelled from the spec: \<open>has(name)\<close>.\<close>

definition Router_has :: "Router \<Rightarrow> string \<Rightarrow> bool" where
  "Router_has r name = (name \<in> fst ` set (routes r))"

text \<open>
  Modelled from the spec: \<open>add(template, name)\<close> parses the template, registers the
  route and returns the variable names; it fails with a \<open>RouterError\<close> on a duplicate
  name or a malformed template, and then registers nothing.
\<close>

definition Router_add :: "Router \<Rightarrow> string \<Rightarrow> string \<Rightarrow> error + (string list \<times> Router)" where
  "Router_add r template name =
     (case parse_template False [] template of
        None \<Rightarrow> Inl (RouterError ''Malformed URI template.'')
      | Some t \<Rightarrow>
          if Router_has r name then Inl (RouterError ''Duplicate route name.'')
          else Inr (variables t, r\<lparr>routes := routes r @ [(name, t)]\<rparr>))"

text \<open>
  Modelled from the spec: percent-encoding of a substituted value. Unreserved characters
  stand for themselves, every other byte becomes \<open>%XX\<close>.
\<close>

definition unreserved :: "char \<Rightarrow> bool" where
  "unreserved c =
     (c \<in> set ''ABCDEFGHIJKLMNOPQRSTUVWXYZabcdefghijklmnopqrstuvwxyz0123456789-._~'')"

definition hex_digit :: "nat \<Rightarrow> char" where
  "hex_digit n = ''0123456789ABCDEF'' ! (n mod 16)"

definition pct_encode_char :: "char \<Rightarrow> string" where
  "pct_encode_char c =
     (if unreserved c then [c]
      else [CHR ''%'', hex_digit (of_char c div 16), hex_digit (of_char c)])"

definition pct_encode :: "string \<Rightarrow> string" where
  "pct_encode s = concat (map pct_encode_char s)"

text \<open>
  Modelled from the spec: \<open>build(name, values)\<close> substitutes every \<open>{var}\<close> with the
  percent-encoded value; a missing variable, like an unknown name, produces none.
\<close>

fun expand :: "part list \<Rightarrow> (string \<times> string) list \<Rightarrow> string option" where
  "expand [] vals = Some []"
| "expand (Lit l # ps) vals = map_option ((@) l) (expand ps vals)"
| "expand (Var v # ps) vals =
     (case map_of vals v of
        None \<Rightarrow> None
      | Some x \<Rightarrow> map_option ((@) (pct_encode x)) (expand ps vals))"

definition Router_build :: "Router \<Rightarrow> string \<Rightarrow> (string \<times> string) list \<Rightarrow> string option" where
  "Router_build r name vals =
     (case map_of (routes r) name of None \<Rightarrow> None | Some t \<Rightarrow> expand t vals)"

text \<open>
  Modelled from the spec: percent-decoding of the text a variable has matched, the
  inverse of the encoding of \<open>build\<close>, as the round-trip law of the spec has it. An
  escape \<open>%XX\<close> stands for the byte with that code; a percent sign that does not start
  an escape stands for itself.
\<close>

definition hex_value :: "char \<Rightarrow> nat option" where
  "hex_value c =
     (if c \<in> set ''0123456789'' then Some (of_char c - 48)
      else if c \<in> set ''ABCDEF'' then Some (of_char c - 55)
      else if c \<in> set ''abcdef'' then Some (of_char c - 87)
      else None)"

fun pct_decode :: "string \<Rightarrow> string" where
  "pct_decode (c # h # l # s) =
     (case (if c = CHR ''%'' then hex_value h else None, hex_value l) of
        (Some a, Some b) \<Rightarrow> char_of (16 * a + b) # pct_decode s
      | _ \<Rightarrow> c # pct_decode (h # l # s))"
| "pct_decode s = s"

text \<open>
  Modelled from the spec: matching of a path against a template. A literal run must
  match literally (case-sensitive, slashes included); a variable matches a run of
  characters other than the slash (an empty one for an empty value), the shortest one
  with which the rest of the template matches, and its value is that run
  percent-decoded. A variable that occurs twice must have the same value both times.
\<close>

definition bind_var :: "string \<Rightarrow> string \<Rightarrow> (string \<times> string) list \<Rightarrow> (string \<times> string) list option"
where
  "bind_var v x vals =
     (case map_of vals v of
        None \<Rightarrow> Some ((v, x) # vals)
      | Some y \<Rightarrow> if y = x then Some vals else None)"

definition or_else :: "'a option \<Rightarrow> 'a option \<Rightarrow> 'a option" where
  "or_else a b = (case a of Some x \<Rightarrow> Some x | None \<Rightarrow> b)"

fun match_parts :: "part list \<Rightarrow> string \<Rightarrow> (string \<times> string) list option"
and match_var :: "string \<Rightarrow> string \<Rightarrow> part list \<Rightarrow> string \<Rightarrow> (string \<times> string) list option"
where
  "match_parts [] s = (if s = [] then Some [] else None)"
| "match_parts (Lit l # ps) s =
     (if take (length l) s = l then match_parts ps (drop (length l) s) else None)"
| "match_parts (Var v # ps) s = match_var v [] ps s"
| "match_var v acc ps s =
     or_else
       (case match_parts ps s of None \<Rightarrow> None | Some vals \<Rightarrow> bind_var v (pct_decode acc) vals)
       (case s of
          [] \<Rightarrow> None
        | c # cs \<Rightarrow> if c = CHR ''/'' then None else match_var v (acc @ [c]) ps cs)"

declare match_var.simps [simp del]

text \<open>
  Modelled from the spec: \<open>route(path)\<close> is the longest match on literals: of the routes
  whose template matches, the one with the most literal characters, the earlier
  registration winning a tie.
\<close>

fun literal_length :: "part list \<Rightarrow> nat" where
  "literal_length [] = 0"
| "literal_length (Lit l # ps) = length l + literal_length ps"
| "literal_length (Var v # ps) = literal_length ps"

fun candidates :: "(string \<times> part list) list \<Rightarrow> string \<Rightarrow> (nat \<times> string \<times> (string \<times> string) list) list"
where
  "candidates [] path = []"
| "candidates ((name, t) # rs) path =
     (case match_parts t path of
        None \<Rightarrow> candidates rs path
      | Some vals \<Rightarrow> (literal_length t, name, vals) # candidates rs path)"

fun longest :: "(nat \<times> 'a) list \<Rightarrow> (nat \<times> 'a) option" where
  "longest [] = None"
| "longest (c # cs) =
     (case longest cs of
        None \<Rightarrow> Some c
      | Some d \<Rightarrow> if fst c < fst d then Some d else Some c)"

definition Router_route :: "Router \<Rightarrow> string \<Rightarrow> (string \<times> (string \<times> string) list) option" where
  "Router_route r path = map_option snd (longest (candidates (routes r) path))"

text \<open>
  Modelled from the spec: the variable set of a template as the router reads it, none
  for a malformed template.
\<close>

definition variable_set :: "string \<Rightarrow> string set option" where
  "variable_set template = map_option (set \<circ> variables) (parse_template False [] template)"

section \<open>middleware.ts: the Federation registry\<close>

text \<open>
  User callbacks that the modelled operations store but never call are opaque. The key
  pair dispatcher is called, so it is kept as what it answers for a handle (the context
  data being already applied); it can throw.
\<close>

datatype Callback = Callback nat
datatype MessageQueue = MessageQueue nat

record CryptoKeyPair =
  privateKey' :: CryptoKey
  publicKey :: CryptoKey

record ActorCallbacks =
  dispatcher :: "Callback option"
  keyPairDispatcher :: "(string \<Rightarrow> error + CryptoKeyPair option) option"
  authorizePredicate :: "Callback option"

record ObjectCallbacks =
  objectDispatcher :: Callback
  parameters :: "string list"
  objectAuthorizePredicate :: "Callback option"

record CollectionCallbacks =
  collectionDispatcher :: Callback
  counter :: "Callback option"
  firstCursor :: "Callback option"
  lastCursor :: "Callback option"
  collectionAuthorizePredicate :: "Callback option"

text \<open>
  The private fields of the class. The key-value store and its prefixes are left out:
  none of the operations below reads them. \<open>onOutboxError\<close> answers with the error it
  throws itself, if it throws.
\<close>

record Federation =
  queue :: "MessageQueue option"
  queueStarted :: bool
  router :: Router
  nodeInfoDispatcher :: "Callback option"
  actorCallbacks :: "ActorCallbacks option"
  objectCallbacks :: "string \<Rightarrow> ObjectCallbacks option"
  outboxCallbacks :: "CollectionCallbacks option"
  followingCallbacks :: "CollectionCallbacks option"
  followersCallbacks :: "CollectionCallbacks option"
  inboxListeners :: "(string \<times> Callback) list"
  inboxErrorHandler :: "Callback option"
  documentLoader :: DocumentLoader
  authenticatedDocumentLoaderFactory :: "URL \<Rightarrow> CryptoKey \<Rightarrow> error + DocumentLoader"
  treatHttps :: bool
  onOutboxError :: "(error \<Rightarrow> Activity option \<Rightarrow> error option) option"
  backoffSchedule :: "Duration list"

record FederationParameters =
  queue' :: "MessageQueue option"
  documentLoader' :: "DocumentLoader option"
  authenticatedDocumentLoaderFactory' :: "(URL \<Rightarrow> CryptoKey \<Rightarrow> error + DocumentLoader) option"
  treatHttps' :: "bool option"
  onOutboxError' :: "(error \<Rightarrow> Activity option \<Rightarrow> error option) option"
  backoffSchedule' :: "Duration list option"

text \<open>The default schedule, in milliseconds.\<close>

definition default_backoffSchedule :: "Duration list" where
  "default_backoffSchedule = [3000, 15000, 60000, 15 * 60000, 60 * 60000]"

text \<open>The constructor. The two well-known routes are added to a fresh router.\<close>

definition new_Federation :: "env \<Rightarrow> FederationParameters \<Rightarrow> error + Federation" where
  "new_Federation e params =
     (case Router_add \<lparr>routes = []\<rparr> ''/.well-known/webfinger'' ''webfinger'' of
        Inl err \<Rightarrow> Inl err
      | Inr (vs1, r1) \<Rightarrow>
          (case Router_add r1 ''/.well-known/nodeinfo'' ''nodeInfoJrd'' of
             Inl err \<Rightarrow> Inl err
           | Inr (vs2, r2) \<Rightarrow>
               Inr \<lparr>queue = queue' params,
                    queueStarted = False,
                    router = r2,
                    nodeInfoDispatcher = None,
                    actorCallbacks = None,
                    objectCallbacks = (\<lambda>typeId. None),
                    outboxCallbacks = None,
                    followingCallbacks = None,
                    followersCallbacks = None,
                    inboxListeners = [],
                    inboxErrorHandler = None,
                    documentLoader =
                      (case documentLoader' params of None \<Rightarrow> kvCache e | Some l \<Rightarrow> l),
                    authenticatedDocumentLoaderFactory =
                      (case authenticatedDocumentLoaderFactory' params of
                         None \<Rightarrow> getAuthenticatedDocumentLoader e
                       | Some f \<Rightarrow> f),
                    treatHttps = (case treatHttps' params of None \<Rightarrow> False | Some b \<Rightarrow> b),
                    onOutboxError = onOutboxError' params,
                    backoffSchedule =
                      (case backoffSchedule' params of
                         None \<Rightarrow> default_backoffSchedule
                       | Some s \<Rightarrow> s)\<rparr>))"

subsection \<open>The outbound queue\<close>

definition startQueue :: "Federation \<Rightarrow> Federation \<times> event list" where
  "startQueue fed =
     (if queue fed \<noteq> None \<and> \<not> queueStarted fed then
        (fed\<lparr>queueStarted := True\<rparr>, [Log Debug ''Starting an outbox queue.'', Listen])
      else (fed, []))"

text \<open>
  The \<open>try\<close> block of the listener: the events, the value of the variable \<open>activity\<close>
  when the block is left, and how it is left. The argument object of \<open>sendActivity\<close> is
  built first, so \<open>new URL(message.inbox)\<close> runs before the call.
\<close>

definition listenQueue_try ::
  "env \<Rightarrow> Federation \<Rightarrow> OutboxMessage \<Rightarrow> event list \<times> Activity option \<times> (error + bool)"
where
  "listenQueue_try e fed message =
     (case parseURL e (keyId message) of
        Inl err \<Rightarrow> ([], None, Inl err)
      | Inr kid \<Rightarrow>
     (case importJwk e (privateKey message) of
        Inl err \<Rightarrow> ([], None, Inl err)
      | Inr privKey \<Rightarrow>
     (case authenticatedDocumentLoaderFactory fed kid privKey of
        Inl err \<Rightarrow> ([], None, Inl err)
      | Inr loader \<Rightarrow>
     (case fromJsonLd e (activity message) loader of
        Inl err \<Rightarrow> ([FromJsonLd (activity message)], None, Inl err)
      | Inr act \<Rightarrow>
     (case parseURL e (inbox message) of
        Inl err \<Rightarrow> ([FromJsonLd (activity message)], Some act, Inl err)
      | Inr inbox_url \<Rightarrow>
          (case sendActivity e act privKey kid inbox_url loader of
             (evs, r) \<Rightarrow> (FromJsonLd (activity message) # evs, Some act, r)))))))"

text \<open>
  The listener. Whatever the \<open>try\<close> block throws lands in the one \<open>catch\<close>; what
  \<open>sendActivity\<close> returns is not looked at.
\<close>

definition listenQueue :: "env \<Rightarrow> Federation \<Rightarrow> OutboxMessage \<Rightarrow> event list" where
  "listenQueue e fed message =
     (case listenQueue_try e fed message of
        (evs, act, Inl err) \<Rightarrow>
          evs
          @ (case onOutboxError fed of
               None \<Rightarrow> []
             | Some handler \<Rightarrow>
                 OnOutboxError err act
                 # (case handler err act of
                      None \<Rightarrow> []
                    | Some err2 \<Rightarrow>
                        [Log Err ''An unexpected error occurred in onError handler:{error}'']))
          @ (if trial message < length (backoffSchedule fed) then
               Log Err ''Failed to send activity {activityId} to {inbox} (trial #{trial}); retry...:{error}''
               # (case queue fed of
                    None \<Rightarrow> []
                  | Some q \<Rightarrow>
                      [Enqueue (message\<lparr>trial := trial message + 1\<rparr>)
                         (Some (backoffSchedule fed ! trial message))])
             else
               [Log Err ''Failed to send activity {activityId} to {inbox} after {trial} trials; giving up:{error}''])
      | (evs, act, Inr sent) \<Rightarrow>
          evs @ [Log Info ''Successfully sent activity {activityId} to {inbox}.''])"

text \<open>The messages an operation put on the queue, with their delays.\<close>

fun enqueued :: "event list \<Rightarrow> (OutboxMessage \<times> Duration option) list" where
  "enqueued [] = []"
| "enqueued (Enqueue m d # evs) = (m, d) # enqueued evs"
| "enqueued (ev # evs) = enqueued evs"

fun fetched :: "event list \<Rightarrow> Request list" where
  "fetched [] = []"
| "fetched (Fetch r # evs) = r # fetched evs"
| "fetched (ev # evs) = fetched evs"

text \<open>
  The queue hands every message it was given back to the listener, a retry after its
  delay. \<open>deliveries\<close> is the run of the listener on a message and on everything
  enqueued in turn, one event list per delivery attempt; the environment may answer
  differently at each trial. That the run is finite rests on the listener enqueueing only
  messages of a higher trial, and only below the length of the schedule.
\<close>

lemma enqueued_append: "enqueued (xs @ ys) = enqueued xs @ enqueued ys"
  by (induction xs rule: enqueued.induct) simp_all

lemma enqueued_sendActivity:
  "enqueued (fst (sendActivity e act privKey kid inbox_url loader)) = []"
  by (simp add: sendActivity_def Let_def split: sum.splits)

lemma enqueued_listenQueue_try: "enqueued (fst (listenQueue_try e fed message)) = []"
proof -
  have "enqueued (fst (case sendActivity e act privKey kid u loader of
                         (evs, r) \<Rightarrow> (FromJsonLd j # evs, Some act, r))) = []"
    for act privKey kid u loader j
    using enqueued_sendActivity [of e act privKey kid u loader]
    by (cases "sendActivity e act privKey kid u loader") simp
  then show ?thesis
    by (simp add: listenQueue_try_def split: sum.splits)
qed

lemma enqueued_listenQueue:
  "enqueued (listenQueue e fed message) =
     (case listenQueue_try e fed message of
        (evs, act, Inl err) \<Rightarrow>
          (if trial message < length (backoffSchedule fed) \<and> queue fed \<noteq> None then
             [(message\<lparr>trial := trial message + 1\<rparr>, Some (backoffSchedule fed ! trial message))]
           else [])
      | (evs, act, Inr sent) \<Rightarrow> [])"
proof -
  obtain evs act r where t: "listenQueue_try e fed message = (evs, act, r)"
    by (cases "listenQueue_try e fed message") auto
  have no: "enqueued evs = []"
    using enqueued_listenQueue_try [of e fed message] t by simp
  show ?thesis
    by (cases r)
      (auto simp: listenQueue_def t no enqueued_append split: option.splits)
qed

lemma enqueued_listenQueue_trial:
  assumes "(m, d) \<in> set (enqueued (listenQueue e fed message))"
  shows "trial m = Suc (trial message) \<and> trial message < length (backoffSchedule fed)"
proof -
  obtain evs act r where t: "listenQueue_try e fed message = (evs, act, r)"
    by (cases "listenQueue_try e fed message") auto
  show ?thesis
    using assms unfolding enqueued_listenQueue t
    by (cases r) (auto split: if_splits)
qed

function deliveries :: "(nat \<Rightarrow> env) \<Rightarrow> Federation \<Rightarrow> OutboxMessage \<Rightarrow> event list list" where
  "deliveries envs fed message =
     listenQueue (envs (trial message)) fed message
     # concat (map (\<lambda>md. deliveries envs fed (fst md))
                 (enqueued (listenQueue (envs (trial message)) fed message)))"
  by pat_completeness auto
termination
proof (relation "measure (\<lambda>(envs, fed, message). Suc (length (backoffSchedule fed)) - trial message)")
  show "wf (measure (\<lambda>(envs, fed, message). Suc (length (backoffSchedule fed)) - trial message))"
    by simp
next
  fix envs :: "nat \<Rightarrow> env" and fed message and md :: "OutboxMessage \<times> Duration option"
  assume "md \<in> set (enqueued (listenQueue (envs (trial message)) fed message))"
  then have "trial (fst md) = Suc (trial message) \<and> trial message < length (backoffSchedule fed)"
    using enqueued_listenQueue_trial [of "fst md" "snd md"] by simp
  then show "((envs, fed, fst md), (envs, fed, message))
               \<in> measure (\<lambda>(envs, fed, message). Suc (length (backoffSchedule fed)) - trial message)"
    by (simp add: Suc_diff_le)
qed

declare deliveries.simps [simp del]

subsection \<open>createContext: the URL builders\<close>


definition getActorUri :: "env \<Rightarrow> Federation \<Rightarrow> URL \<Rightarrow> string \<Rightarrow> error + URL" where
  "getActorUri e fed url0 handle =
     (case Router_build (router fed) ''actor'' [(''handle'', handle)] of
        None \<Rightarrow> Inl (RouterError ''No actor dispatcher registered.'')
      | Some path \<Rightarrow> new_URL e path url0)"

text \<open>
  \<open>cls\<close> is the class's \<open>typeId.href\<close>. The loop over the declared parameters stops at
  the first one that is not a key of \<open>values\<close>.
\<close>

definition getObjectUri ::
  "env \<Rightarrow> Federation \<Rightarrow> URL \<Rightarrow> string \<Rightarrow> (string \<times> string) list \<Rightarrow> error + URL"
where
  "getObjectUri e fed url0 cls vals =
     (case objectCallbacks fed cls of
        None \<Rightarrow> Inl (RouterError ''No object dispatcher registered.'')
      | Some callbacks \<Rightarrow>
          (case find (\<lambda>param. param \<notin> fst ` set vals) (parameters callbacks) of
             Some param \<Rightarrow> Inl (TypeError (''Missing parameter: '' @ param))
           | None \<Rightarrow>
               (case Router_build (router fed) (''object:'' @ cls) vals of
                  None \<Rightarrow> Inl (RouterError ''No object dispatcher registered.'')
                | Some path \<Rightarrow> new_URL e path url0)))"

definition getOutboxUri :: "env \<Rightarrow> Federation \<Rightarrow> URL \<Rightarrow> string \<Rightarrow> error + URL" where
  "getOutboxUri e fed url0 handle =
     (case Router_build (router fed) ''outbox'' [(''handle'', handle)] of
        None \<Rightarrow> Inl (RouterError ''No outbox dispatcher registered.'')
      | Some path \<Rightarrow> new_URL e path url0)"


definition getFollowingUri :: "env \<Rightarrow> Federation \<Rightarrow> URL \<Rightarrow> string \<Rightarrow> error + URL" where
  "getFollowingUri e fed url0 handle =
     (case Router_build (router fed) ''following'' [(''handle'', handle)] of
        None \<Rightarrow> Inl (RouterError ''No following collection path registered.'')
      | Some path \<Rightarrow> new_URL e path url0)"

definition getFollowersUri :: "env \<Rightarrow> Federation \<Rightarrow> URL \<Rightarrow> string \<Rightarrow> error + URL" where
  "getFollowersUri e fed url0 handle =
     (case Router_build (router fed) ''followers'' [(''handle'', handle)] of
        None \<Rightarrow> Inl (RouterError ''No followers collection path registered.'')
      | Some path \<Rightarrow> new_URL e path url0)"

text \<open>
  \<open>route.values.handle\<close> of the matched route; \<open>null\<close> and a missing property are both
  the value none.
\<close>

definition getHandleFromActorUri :: "env \<Rightarrow> Federation \<Rightarrow> URL \<Rightarrow> URL \<Rightarrow> string option" where
  "getHandleFromActorUri e fed url0 actorUri =
     (if origin e actorUri \<noteq> origin e url0 then None
      else
        case Router_route (router fed) (pathname actorUri) of
          None \<Rightarrow> None
        | Some (name, vals) \<Rightarrow> if name \<noteq> ''actor'' then None else map_of vals ''handle'')"

subsection \<open>createContext: sending\<close>

text \<open>
  \<open>getKeyPairFromHandle\<close>: the key pair dispatcher is asked, then the key id is the
  actor URI with the fragment \<open>#main-key\<close>. The quoting of the handle in the message of
  the last error is \<open>JSON.stringify\<close> without its escapes.
\<close>

definition getKeyPairFromHandle ::
  "env \<Rightarrow> Federation \<Rightarrow> URL \<Rightarrow> string \<Rightarrow> event list \<times> (error + URL \<times> CryptoKey)"
where
  "getKeyPairFromHandle e fed url0 handle =
     (case (case actorCallbacks fed of None \<Rightarrow> None | Some cb \<Rightarrow> keyPairDispatcher cb) of
        None \<Rightarrow> ([], Inl (Error ''No actor key pair dispatcher registered.''))
      | Some dispatch \<Rightarrow>
          (case dispatch handle of
             Inl err \<Rightarrow> ([KeyPairDispatch handle], Inl err)
           | Inr None \<Rightarrow>
               ([KeyPairDispatch handle],
                Inl (Error (''No key pair found for actor '' @ [CHR 0x22] @ handle @ [CHR 0x22])))
           | Inr (Some keyPair) \<Rightarrow>
               (case getActorUri e fed url0 handle of
                  Inl err \<Rightarrow> ([KeyPairDispatch handle], Inl err)
                | Inr actorUri \<Rightarrow>
                    (case parseURL e (href actorUri @ ''#main-key'') of
                       Inl err \<Rightarrow> ([KeyPairDispatch handle], Inl err)
                     | Inr kid \<Rightarrow> ([KeyPairDispatch handle], Inr (kid, privateKey' keyPair))))))"

datatype recipients = Single Actor | Several "Actor list"

record SendActivityOptions =
  preferSharedInbox' :: "bool option"
  immediate :: "bool option"

datatype sender = SenderKey URL CryptoKey | SenderHandle string

text \<open>The id minted for an activity that has none: \<open>urn:uuid:\<close> and the random UUID.\<close>

definition urn_uuid :: "string \<Rightarrow> URL" where
  "urn_uuid uuid =
     \<lparr>protocol = ''urn:'', host = [], pathname = ''uuid:'' @ uuid, search = [], hash = []\<rparr>"

text \<open>
  \<open>Promise.all\<close> over deliveries that have all been started: the events of every one of
  them, and a normal return only if every one returned. When several throw, which error
  surfaces depends on timing; the first in the order of the inboxes stands for it.
\<close>

fun first_rejection :: "(error + 'a) list \<Rightarrow> error option" where
  "first_rejection [] = None"
| "first_rejection (Inl err # rs) = Some err"
| "first_rejection (Inr v # rs) = first_rejection rs"

definition promise_all :: "(event list \<times> (error + 'a)) list \<Rightarrow> event list \<times> (error + unit)" where
  "promise_all ps =
     (concat (map fst ps),
      case first_rejection (map snd ps) of None \<Rightarrow> Inr () | Some err \<Rightarrow> Inl err)"

text \<open>
  Three steps of \<open>Federation.sendActivity\<close>: the activity that goes out is the given one,
  cloned with a minted id if it had none; the inboxes are extracted from the recipients,
  a single recipient counting as a list of one; the message enqueued for an inbox.
\<close>

definition with_id :: "env \<Rightarrow> Activity \<Rightarrow> Activity" where
  "with_id e act = (if id' act = None then act\<lparr>id' := Some (urn_uuid (randomUUID e))\<rparr> else act)"

definition inboxes_of :: "recipients \<Rightarrow> SendActivityOptions \<Rightarrow> URL ref list" where
  "inboxes_of rcpts opts =
     extractInboxes \<lparr>recipients = (case rcpts of Single a \<Rightarrow> [a] | Several as \<Rightarrow> as),
                     preferSharedInbox = preferSharedInbox' opts\<rparr>"

definition outbox_message :: "URL \<Rightarrow> JsonWebKey \<Rightarrow> json \<Rightarrow> URL ref \<Rightarrow> OutboxMessage" where
  "outbox_message kid jwk doc inbox_url =
     \<lparr>type' = ''outbox'', keyId = href kid, privateKey = jwk, activity = doc,
      inbox = href (deref inbox_url), trial = 0\<rparr>"

text \<open>
  \<open>Federation.sendActivity\<close>. The result is the registry (the queue may have been
  started), the events and the outcome. \<open>enqueue\<close> is not awaited.
\<close>

definition Federation_sendActivity ::
  "env \<Rightarrow> Federation \<Rightarrow> URL \<Rightarrow> CryptoKey \<Rightarrow> recipients \<Rightarrow> Activity \<Rightarrow> SendActivityOptions
     \<Rightarrow> Federation \<times> event list \<times> (error + unit)"
where
  "Federation_sendActivity e fed kid privKey rcpts act0 opts =
     (if actorId act0 = None then
        (fed, [Log Err ''Activity {activityId} to send does not have an actor.''],
         Inl (TypeError ''The activity to send must have at least one actor property.''))
      else
        case startQueue fed of (fed1, evs0) \<Rightarrow>
        let act = with_id e act0 in
        case validateCryptoKey e privKey of
          Some err \<Rightarrow> (fed1, evs0, Inl err)
        | None \<Rightarrow>
        let inboxes = inboxes_of rcpts opts;
            evs1 = evs0 @ [Log Debug ''Sending activity {activityId} to inboxes:{inboxes}'']
        in
        case authenticatedDocumentLoaderFactory fed1 kid privKey of
          Inl err \<Rightarrow> (fed1, evs1, Inl err)
        | Inr loader \<Rightarrow>
        if truthy (immediate opts) \<or> queue fed1 = None then
          let evs2 = evs1 @
                [if truthy (immediate opts) then
                   Log Debug ''Sending activity immediately without queue since immediate option is set.''
                 else
                   Log Debug ''Sending activity immediately without queue since queue is not set.'']
          in case promise_all
                    (map (\<lambda>inbox_url. sendActivity e act privKey kid (deref inbox_url) loader)
                       inboxes) of
               (evs3, r) \<Rightarrow> (fed1, evs2 @ evs3, r)
        else
          let evs2 = evs1 @ [Log Debug ''Enqueuing activity {activityId} to send later.'']
          in
          case exportJwk e privKey of
            Inl err \<Rightarrow> (fed1, evs2, Inl err)
          | Inr privateKeyJwk \<Rightarrow>
          case toJsonLd e act loader of
            Inl err \<Rightarrow> (fed1, evs2 @ [ToJsonLd act], Inl err)
          | Inr activityJson \<Rightarrow>
              (fed1,
               evs2 @ [ToJsonLd act]
               @ map (\<lambda>inbox_url.
                        Enqueue (outbox_message kid privateKeyJwk activityJson inbox_url) None)
                   inboxes,
               Inr ()))"

text \<open>\<open>Context.sendActivity\<close>: the sender is resolved first, then the registry sends.\<close>

definition Context_sendActivity ::
  "env \<Rightarrow> Federation \<Rightarrow> URL \<Rightarrow> sender \<Rightarrow> recipients \<Rightarrow> Activity \<Rightarrow> SendActivityOptions
     \<Rightarrow> Federation \<times> event list \<times> (error + unit)"
where
  "Context_sendActivity e fed url0 sndr rcpts act opts =
     (case (case sndr of
              SenderHandle handle \<Rightarrow> getKeyPairFromHandle e fed url0 handle
            | SenderKey kid privKey \<Rightarrow> ([], Inr (kid, privKey))) of
        (evs, Inl err) \<Rightarrow> (fed, evs, Inl err)
      | (evs, Inr (kid, privKey)) \<Rightarrow>
          (case Federation_sendActivity e fed kid privKey rcpts act opts of
             (fed1, evs1, r) \<Rightarrow> (fed1, evs @ evs1, r)))"

subsection \<open>createContext: the signature of a request\<close>

text \<open>
  The two variables \<open>signedKey\<close> and \<open>signedKeyOwner\<close> of a request context: \<open>None\<close> is
  \<open>undefined\<close> (not computed yet), \<open>Some None\<close> is a computed \<open>null\<close>.
\<close>

record RequestContext =
  request :: Request
  loader_of :: DocumentLoader
  signedKey :: "CryptographicKey ref option option"
  signedKeyOwner :: "Actor ref option option"

definition createRequestContext :: "Federation \<Rightarrow> Request \<Rightarrow> RequestContext" where
  "createRequestContext fed req =
     \<lparr>request = req, loader_of = documentLoader fed, signedKey = None, signedKeyOwner = None\<rparr>"

text \<open>
  \<open>getSignedKey\<close> and \<open>getSignedKeyOwner\<close> are async: a call runs up to its first
  \<open>await\<close>, and the rest of the body runs when the awaited promise has settled; other
  calls may start in between.

  \<open>getSignedKey\<close> tests the variable and either returns what is stored or calls
  \<open>verify\<close> and suspends (\<open>getSignedKey_begin\<close>). When the verification has settled,
  the call stores the key and returns it, or throws what the verification threw and
  stores nothing (\<open>getSignedKey_settle\<close>, in the world that answers this verification).
\<close>

datatype 'a started = Returned 'a | Awaiting

definition getSignedKey_begin ::
  "RequestContext \<Rightarrow> event list \<times> CryptographicKey ref option started"
where
  "getSignedKey_begin rc =
     (case signedKey rc of
        Some k \<Rightarrow> ([], Returned k)
      | None \<Rightarrow> ([Verify (request rc)], Awaiting))"

definition getSignedKey_settle ::
  "env \<Rightarrow> CryptographicKey ref option started \<Rightarrow> RequestContext
     \<Rightarrow> (error + CryptographicKey ref option) \<times> RequestContext"
where
  "getSignedKey_settle e st rc =
     (case st of
        Returned k \<Rightarrow> (Inr k, rc)
      | Awaiting \<Rightarrow>
          (case verify e (request rc) (loader_of rc) of
             Inl err \<Rightarrow> (Inl err, rc)
           | Inr k \<Rightarrow> (Inr k, rc\<lparr>signedKey := Some k\<rparr>)))"

text \<open>A call of \<open>getSignedKey\<close> that is awaited before anything else runs.\<close>

definition getSignedKey ::
  "env \<Rightarrow> RequestContext \<Rightarrow> event list \<times> (error + CryptographicKey ref option) \<times> RequestContext"
where
  "getSignedKey e rc =
     (case getSignedKey_begin rc of
        (evs, st) \<Rightarrow> (case getSignedKey_settle e st rc of (r, rc1) \<Rightarrow> (evs, r, rc1)))"

text \<open>
  Two calls of \<open>getSignedKey\<close> started together, as by
  \<open>Promise.all([ctx.getSignedKey(), ctx.getSignedKey()])\<close>: both run up to their
  \<open>await\<close> before either verification has settled, so the second tests the variable
  the first has not stored yet. The first verification is answered in the world \<open>e1\<close>,
  the second in the world \<open>e2\<close>. The result is the events, what the first and the
  second call return, and the context afterwards.
\<close>

definition getSignedKey_together ::
  "env \<Rightarrow> env \<Rightarrow> RequestContext
     \<Rightarrow> event list \<times> (error + CryptographicKey ref option)
         \<times> (error + CryptographicKey ref option) \<times> RequestContext"
where
  "getSignedKey_together e1 e2 rc =
     (case getSignedKey_begin rc of (evs1, st1) \<Rightarrow>
      case getSignedKey_begin rc of (evs2, st2) \<Rightarrow>
      case getSignedKey_settle e1 st1 rc of (r1, rc1) \<Rightarrow>
      case getSignedKey_settle e2 st2 rc1 of (r2, rc2) \<Rightarrow>
        (evs1 @ evs2, r1, r2, rc2))"

text \<open>
  \<open>getSignedKeyOwner\<close> tests its variable and either returns what is stored or calls
  \<open>getSignedKey\<close> and suspends (\<open>getSignedKeyOwner_begin\<close>). When that call has
  settled, it throws what the call threw, or stores and returns \<open>null\<close> for no key, or
  calls \<open>getKeyOwner\<close> with the key and suspends again (\<open>getSignedKeyOwner_key\<close>). When
  the lookup has settled, it stores the owner and returns it, or throws what the lookup
  threw and stores nothing (\<open>getSignedKeyOwner_settle\<close>).
\<close>

datatype owner_started =
  Owner_returned "Actor ref option"
| Awaiting_key "CryptographicKey ref option started"

datatype owner_resumed =
  Owner_settled "error + Actor ref option"
| Awaiting_owner "CryptographicKey ref"

definition getSignedKeyOwner_begin :: "RequestContext \<Rightarrow> event list \<times> owner_started" where
  "getSignedKeyOwner_begin rc =
     (case signedKeyOwner rc of
        Some ownr \<Rightarrow> ([], Owner_returned ownr)
      | None \<Rightarrow> (case getSignedKey_begin rc of (evs, st) \<Rightarrow> (evs, Awaiting_key st)))"

definition getSignedKeyOwner_key ::
  "(error + CryptographicKey ref option) \<Rightarrow> RequestContext
     \<Rightarrow> event list \<times> owner_resumed \<times> RequestContext"
where
  "getSignedKeyOwner_key r rc =
     (case r of
        Inl err \<Rightarrow> ([], Owner_settled (Inl err), rc)
      | Inr None \<Rightarrow> ([], Owner_settled (Inr None), rc\<lparr>signedKeyOwner := Some None\<rparr>)
      | Inr (Some k) \<Rightarrow> ([KeyOwnerLookup k], Awaiting_owner k, rc))"

definition getSignedKeyOwner_settle ::
  "env \<Rightarrow> owner_resumed \<Rightarrow> RequestContext \<Rightarrow> (error + Actor ref option) \<times> RequestContext"
where
  "getSignedKeyOwner_settle e w rc =
     (case w of
        Owner_settled r \<Rightarrow> (r, rc)
      | Awaiting_owner k \<Rightarrow>
          (case getKeyOwner e k (loader_of rc) of
             Inl err \<Rightarrow> (Inl err, rc)
           | Inr ownr \<Rightarrow> (Inr ownr, rc\<lparr>signedKeyOwner := Some ownr\<rparr>)))"

text \<open>A call of \<open>getSignedKeyOwner\<close> that is awaited before anything else runs.\<close>

definition getSignedKeyOwner ::
  "env \<Rightarrow> RequestContext \<Rightarrow> event list \<times> (error + Actor ref option) \<times> RequestContext"
where
  "getSignedKeyOwner e rc =
     (case getSignedKeyOwner_begin rc of
        (evs, Owner_returned ownr) \<Rightarrow> (evs, Inr ownr, rc)
      | (evs, Awaiting_key st) \<Rightarrow>
          (case getSignedKey_settle e st rc of (k, rc1) \<Rightarrow>
           case getSignedKeyOwner_key k rc1 of (evs1, w, rc2) \<Rightarrow>
           case getSignedKeyOwner_settle e w rc2 of (r, rc3) \<Rightarrow> (evs @ evs1, r, rc3)))"

subsection \<open>Registration\<close>

text \<open>
  Each registration returns the registry as the call leaves it, also when it throws,
  and the outcome. The setter objects that a successful call returns only update the
  callbacks just stored; of these \<open>setKeyPairDispatcher\<close> is modelled.
\<close>

definition setNodeInfoDispatcher :: "Federation \<Rightarrow> string \<Rightarrow> Callback \<Rightarrow> Federation \<times> (error + unit)"
where
  "setNodeInfoDispatcher fed path cb =
     (if Router_has (router fed) ''nodeInfo'' then
        (fed, Inl (RouterError ''NodeInfo dispatcher already set.''))
      else
        case Router_add (router fed) path ''nodeInfo'' of
          Inl err \<Rightarrow> (fed, Inl err)
        | Inr (vars, r) \<Rightarrow>
            if length vars \<noteq> 0 then
              (fed\<lparr>router := r\<rparr>,
               Inl (RouterError ''Path for NodeInfo dispatcher must have no variables.''))
            else (fed\<lparr>router := r, nodeInfoDispatcher := Some cb\<rparr>, Inr ()))"

definition setActorDispatcher :: "Federation \<Rightarrow> string \<Rightarrow> Callback \<Rightarrow> Federation \<times> (error + unit)"
where
  "setActorDispatcher fed path cb =
     (if Router_has (router fed) ''actor'' then
        (fed, Inl (RouterError ''Actor dispatcher already set.''))
      else
        case Router_add (router fed) path ''actor'' of
          Inl err \<Rightarrow> (fed, Inl err)
        | Inr (vars, r) \<Rightarrow>
            if length vars \<noteq> 1 \<or> ''handle'' \<notin> set vars then
              (fed\<lparr>router := r\<rparr>,
               Inl (RouterError ''Path for actor dispatcher must have one variable: {handle}''))
            else
              (fed\<lparr>router := r,
                   actorCallbacks :=
                     Some \<lparr>dispatcher = Some cb, keyPairDispatcher = None,
                           authorizePredicate = None\<rparr>\<rparr>,
               Inr ()))"

definition setKeyPairDispatcher ::
  "Federation \<Rightarrow> (string \<Rightarrow> error + CryptoKeyPair option) \<Rightarrow> Federation"
where
  "setKeyPairDispatcher fed dispatch =
     fed\<lparr>actorCallbacks :=
           map_option (\<lambda>callbacks. callbacks\<lparr>keyPairDispatcher := Some dispatch\<rparr>)
             (actorCallbacks fed)\<rparr>"

text \<open>\<open>cls\<close> is the class's \<open>typeId.href\<close>, \<open>cls_name\<close> its name.\<close>

definition setObjectDispatcher ::
  "Federation \<Rightarrow> string \<Rightarrow> string \<Rightarrow> string \<Rightarrow> Callback \<Rightarrow> Federation \<times> (error + unit)"
where
  "setObjectDispatcher fed cls cls_name path cb =
     (let routeName = ''object:'' @ cls in
      if Router_has (router fed) routeName then
        (fed, Inl (RouterError (''Object dispatcher for '' @ cls_name @ '' already set.'')))
      else
        case Router_add (router fed) path routeName of
          Inl err \<Rightarrow> (fed, Inl err)
        | Inr (vars, r) \<Rightarrow>
            if length vars < 1 then
              (fed\<lparr>router := r\<rparr>,
               Inl (RouterError ''Path for object dispatcher must have at least one variable.''))
            else
              (fed\<lparr>router := r,
                   objectCallbacks :=
                     (objectCallbacks fed)
                       (cls \<mapsto> \<lparr>objectDispatcher = cb, parameters = vars,
                                objectAuthorizePredicate = None\<rparr>)\<rparr>,
               Inr ()))"

definition new_CollectionCallbacks :: "Callback \<Rightarrow> CollectionCallbacks" where
  "new_CollectionCallbacks cb =
     \<lparr>collectionDispatcher = cb, counter = None, firstCursor = None, lastCursor = None,
      collectionAuthorizePredicate = None\<rparr>"

definition setOutboxDispatcher :: "Federation \<Rightarrow> string \<Rightarrow> Callback \<Rightarrow> Federation \<times> (error + unit)"
where
  "setOutboxDispatcher fed path cb =
     (if Router_has (router fed) ''outbox'' then
        (fed, Inl (RouterError ''Outbox dispatcher already set.''))
      else
        case Router_add (router fed) path ''outbox'' of
          Inl err \<Rightarrow> (fed, Inl err)
        | Inr (vars, r) \<Rightarrow>
            if length vars \<noteq> 1 \<or> ''handle'' \<notin> set vars then
              (fed\<lparr>router := r\<rparr>,
               Inl (RouterError ''Path for outbox dispatcher must have one variable: {handle}''))
            else
              (fed\<lparr>router := r, outboxCallbacks := Some (new_CollectionCallbacks cb)\<rparr>, Inr ()))"

definition setFollowingDispatcher :: "Federation \<Rightarrow> string \<Rightarrow> Callback \<Rightarrow> Federation \<times> (error + unit)"
where
  "setFollowingDispatcher fed path cb =
     (if Router_has (router fed) ''following'' then
        (fed, Inl (RouterError ''Following collection dispatcher already set.''))
      else
        case Router_add (router fed) path ''following'' of
          Inl err \<Rightarrow> (fed, Inl err)
        | Inr (vars, r) \<Rightarrow>
            if length vars \<noteq> 1 \<or> ''handle'' \<notin> set vars then
              (fed\<lparr>router := r\<rparr>,
               Inl (RouterError
                 ''Path for following collection dispatcher must have one variable: {handle}''))
            else
              (fed\<lparr>router := r, followingCallbacks := Some (new_CollectionCallbacks cb)\<rparr>,
               Inr ()))"

definition setFollowersDispatcher :: "Federation \<Rightarrow> string \<Rightarrow> Callback \<Rightarrow> Federation \<times> (error + unit)"
where
  "setFollowersDispatcher fed path cb =
     (if Router_has (router fed) ''followers'' then
        (fed, Inl (RouterError ''Followers collection dispatcher already set.''))
      else
        case Router_add (router fed) path ''followers'' of
          Inl err \<Rightarrow> (fed, Inl err)
        | Inr (vars, r) \<Rightarrow>
            if length vars \<noteq> 1 \<or> ''handle'' \<notin> set vars then
              (fed\<lparr>router := r\<rparr>,
               Inl (RouterError
                 ''Path for followers collection dispatcher must have one variable: {handle}''))
            else
              (fed\<lparr>router := r, followersCallbacks := Some (new_CollectionCallbacks cb)\<rparr>,
               Inr ()))"

definition setInboxListeners ::
  "Federation \<Rightarrow> string \<Rightarrow> string option \<Rightarrow> Federation \<times> (error + unit)"
where
  "setInboxListeners fed inboxPath sharedInboxPath =
     (if Router_has (router fed) ''inbox'' then
        (fed, Inl (RouterError ''Inbox already set.''))
      else
        case Router_add (router fed) inboxPath ''inbox'' of
          Inl err \<Rightarrow> (fed, Inl err)
        | Inr (vars, r) \<Rightarrow>
            if length vars \<noteq> 1 \<or> ''handle'' \<notin> set vars then
              (fed\<lparr>router := r\<rparr>,
               Inl (RouterError ''Path for inbox must have one variable: {handle}''))
            else
              (case sharedInboxPath of
                 None \<Rightarrow> (fed\<lparr>router := r\<rparr>, Inr ())
               | Some sharedPath \<Rightarrow>
                   (case Router_add r sharedPath ''sharedInbox'' of
                      Inl err \<Rightarrow> (fed\<lparr>router := r\<rparr>, Inl err)
                    | Inr (siVars, r2) \<Rightarrow>
                        if length siVars \<noteq> 0 then
                          (fed\<lparr>router := r2\<rparr>,
                           Inl (RouterError ''Path for shared inbox must have no variables.''))
                        else (fed\<lparr>router := r2\<rparr>, Inr ()))))"

subsection \<open>Reading event lists\<close>

fun outbox_errors :: "event list \<Rightarrow> (error \<times> Activity option) list" where
  "outbox_errors [] = []"
| "outbox_errors (OnOutboxError err act # evs) = (err, act) # outbox_errors evs"
| "outbox_errors (ev # evs) = outbox_errors evs"

fun verifications :: "event list \<Rightarrow> nat" where
  "verifications [] = 0"
| "verifications (Verify r # evs) = Suc (verifications evs)"
| "verifications (ev # evs) = verifications evs"

text \<open>
  A sequence of calls on one request context, \<open>True\<close> for \<open>getSignedKey()\<close> and \<open>False\<close>
  for \<open>getSignedKeyOwner()\<close>, each awaited before the next: the events of all of them.
\<close>

fun signature_calls :: "env \<Rightarrow> RequestContext \<Rightarrow> bool list \<Rightarrow> event list" where
  "signature_calls e rc [] = []"
| "signature_calls e rc (c # cs) =
     (if c then
        (case getSignedKey e rc of (evs, r, rc1) \<Rightarrow> evs @ signature_calls e rc1 cs)
      else
        (case getSignedKeyOwner e rc of (evs, r, rc1) \<Rightarrow> evs @ signature_calls e rc1 cs))"

section \<open>Example values\<close>

definition example_shared_inbox :: URL where
  "example_shared_inbox =
     \<lparr>protocol = ''https:'', host = ''example.com'', pathname = ''/inbox'', search = [], hash = []\<rparr>"

definition alice :: Actor where
  "alice = \<lparr>inboxId = None,
            endpoints = Some \<lparr>sharedInbox = Some (Ref 1 example_shared_inbox)\<rparr>\<rparr>"

definition bob :: Actor where
  "bob = \<lparr>inboxId = None,
          endpoints = Some \<lparr>sharedInbox = Some (Ref 2 example_shared_inbox)\<rparr>\<rparr>"

definition carol_inbox :: URL where
  "carol_inbox =
     \<lparr>protocol = ''https:'', host = ''example.org'', pathname = ''/users/carol/inbox'',
      search = [], hash = []\<rparr>"

definition carol :: Actor where
  "carol = \<lparr>inboxId = Some (Ref 3 carol_inbox), endpoints = None\<rparr>"

definition example_base :: URL where
  "example_base =
     \<lparr>protocol = ''https:'', host = ''example.com'', pathname = ''/'', search = [], hash = []\<rparr>"

definition example_key_id :: URL where
  "example_key_id =
     \<lparr>protocol = ''https:'', host = ''example.com'', pathname = ''/users/alice'',
      search = [], hash = ''#main-key''\<rparr>"

definition example_activity :: Activity where
  "example_activity =
     \<lparr>id' = None, actorId = Some (example_base\<lparr>pathname := ''/users/alice''\<rparr>),
      document = ''{Create}''\<rparr>"

text \<open>
  A world in which every collaborator succeeds: the two URLs of the examples parse, the
  one document deserialises to the example activity, and the remote inbox answers 202.
\<close>

definition world :: env where
  "world =
     \<lparr>parseURL = (\<lambda>s. if s = ''https://example.com/inbox'' then Inr example_shared_inbox
                       else if s = ''https://example.com/users/alice#main-key''
                         then Inr example_key_id
                       else Inl (TypeError ''Invalid URL'')),
      resolveURL = (\<lambda>p b. Inl (TypeError ''Invalid URL'')),
      opaqueOrigin = (\<lambda>u. ''null''),
      importJwk = (\<lambda>j. Inr (CryptoKey 1)),
      exportJwk = (\<lambda>k. Inr ''{jwk}''),
      validateCryptoKey = (\<lambda>k. None),
      fromJsonLd = (\<lambda>j l. if j = ''{Create}'' then Inr example_activity
                           else Inl (Error ''Invalid JSON-LD'')),
      toJsonLd = (\<lambda>a l. Inr (document a)),
      sign = (\<lambda>r k u. Inr (r\<lparr>headers := headers r @ [(''Signature'', ''keyId=...'')]\<rparr>)),
      fetch = (\<lambda>r. Inr \<lparr>status = 202\<rparr>),
      randomUUID = ''6fa459ea-ee8a-4ca4-894e-db77e160355e'',
      verify = (\<lambda>r l. Inr None),
      getKeyOwner = (\<lambda>k l. Inr None),
      kvCache = DocumentLoader 0,
      getAuthenticatedDocumentLoader = (\<lambda>u k. Inr (DocumentLoader 1))\<rparr>"

text \<open>
  A world in which the request is signed: every verification answers with a key object
  of its own, at the given address, and the owner of the key is looked up likewise.
\<close>

definition example_signing_key :: CryptographicKey where
  "example_signing_key =
     \<lparr>key_id = Some example_key_id,
      key_owner = Some (example_base\<lparr>pathname := ''/users/alice''\<rparr>)\<rparr>"

definition signed_world :: "nat \<Rightarrow> env" where
  "signed_world n =
     world\<lparr>verify := (\<lambda>r l. Inr (Some (Ref n example_signing_key))),
           getKeyOwner := (\<lambda>k l. Inr (Some (Ref (Suc n) alice)))\<rparr>"

text \<open>A world in which the verification throws, the key document being out of reach.\<close>

definition unreachable_world :: env where
  "unreachable_world = world\<lparr>verify := (\<lambda>r l. Inl (TypeError ''Failed to fetch''))\<rparr>"

definition example_parameters :: FederationParameters where
  "example_parameters =
     \<lparr>queue' = Some (MessageQueue 0), documentLoader' = None,
      authenticatedDocumentLoaderFactory' = None, treatHttps' = None,
      onOutboxError' = Some (\<lambda>err act. None), backoffSchedule' = None\<rparr>"

text \<open>A registry fresh from the constructor.\<close>

definition example_federation :: Federation where
  "example_federation = projr (new_Federation world example_parameters)"

definition example_message :: OutboxMessage where
  "example_message =
     \<lparr>type' = ''outbox'', keyId = ''https://example.com/users/alice#main-key'',
      privateKey = ''{jwk}'', activity = ''{Create}'',
      inbox = ''https://example.com/inbox'', trial = 0\<rparr>"

definition example_request :: Request where
  "example_request =
     \<lparr>url = example_base, req_method = ''GET'', headers = [], body = None\<rparr>"

definition example_options :: SendActivityOptions where
  "example_options = \<lparr>preferSharedInbox' = Some True, immediate = None\<rparr>"

definition example_immediate :: SendActivityOptions where
  "example_immediate = \<lparr>preferSharedInbox' = Some True, immediate = Some True\<rparr>"

definition Note_typeId :: string where
  "Note_typeId = ''https://www.w3.org/ns/activitystreams#Note''"

text \<open>The example registry after a successful registration of the actor dispatcher.\<close>

definition example_registered :: Federation where
  "example_registered = fst (setActorDispatcher example_federation ''/users/{handle}'' (Callback 1))"

section \<open>Properties of extractInboxes\<close>

lemma js_set_add_set: "set (js_set_add s x) \<subseteq> insert x (set s)"
  by (auto simp: js_set_add_def)

lemma js_set_add_addrs: "addr ` set (js_set_add s x) = insert (addr x) (addr ` set s)"
  by (auto simp: js_set_add_def)

lemma js_set_add_distinct:
  "distinct (map addr s) \<Longrightarrow> distinct (map addr (js_set_add s x))"
  by (auto simp: js_set_add_def)

lemma extract_fold_addrs:
  "addr ` set (fold (\<lambda>r acc. case f r of None \<Rightarrow> acc | Some i \<Rightarrow> js_set_add acc i) rs s)
     = addr ` set s \<union> addr ` {i. \<exists>r \<in> set rs. f r = Some i}"
proof (induction rs arbitrary: s)
  case Nil
  then show ?case by simp
next
  case (Cons r rs)
  show ?case
  proof (cases "f r")
    case None
    then show ?thesis using Cons.IH [of s] by auto
  next
    case (Some i)
    have "addr ` {j. \<exists>q \<in> set (r # rs). f q = Some j}
            = insert (addr i) (addr ` {j. \<exists>q \<in> set rs. f q = Some j})"
      using Some by auto
    then show ?thesis
      using Some Cons.IH [of "js_set_add s i"] by (simp add: js_set_add_addrs)
  qed
qed

lemma extract_fold_distinct:
  "distinct (map addr s) \<Longrightarrow>
   distinct (map addr (fold (\<lambda>r acc. case f r of None \<Rightarrow> acc | Some i \<Rightarrow> js_set_add acc i) rs s))"
proof (induction rs arbitrary: s)
  case Nil
  then show ?case by simp
next
  case (Cons r rs)
  then show ?case by (cases "f r") (simp_all add: js_set_add_distinct)
qed

text \<open>
  As a set of objects the result is what the loop promises: the addresses of the chosen
  inboxes of the recipients, each once.
\<close>

lemma extractInboxes_objects:
  "addr ` set (extractInboxes params)
     = addr ` {i. \<exists>r \<in> set (recipients params). inbox_of (preferSharedInbox params) r = Some i}"
  unfolding extractInboxes_def by (simp add: extract_fold_addrs)

lemma extractInboxes_no_object_twice: "distinct (map addr (extractInboxes params))"
  unfolding extractInboxes_def by (rule extract_fold_distinct) simp

text \<open>
  Claim C1. The result is meant to be a de-duplicated set of inbox URLs; in particular
  two recipients with the same shared inbox and \<open>preferSharedInbox = true\<close> are meant to
  give one element. The \<open>Set\<close> compares URL objects by identity, so two recipients
  whose shared inbox is the same URL held in two objects give two elements with the same
  \<open>href\<close>.
\<close>

theorem extractInboxes_same_shared_inbox_twice:
  "map (href \<circ> deref)
     (extractInboxes \<lparr>recipients = [alice, bob], preferSharedInbox = Some True\<rparr>)
   = [''https://example.com/inbox'', ''https://example.com/inbox'']"
  by (simp add: extractInboxes_def inbox_of_def truthy_def shared_or_personal_def
      js_set_add_def alice_def bob_def example_shared_inbox_def href_def)

section \<open>Properties of the outbound queue listener\<close>

lemma example_federation_eq:
  "example_federation =
     \<lparr>queue = Some (MessageQueue 0), queueStarted = False,
      router = \<lparr>routes = [(''webfinger'', [Lit ''/.well-known/webfinger'']),
                          (''nodeInfoJrd'', [Lit ''/.well-known/nodeinfo''])]\<rparr>,
      nodeInfoDispatcher = None, actorCallbacks = None,
      objectCallbacks = (\<lambda>typeId. None), outboxCallbacks = None,
      followingCallbacks = None, followersCallbacks = None,
      inboxListeners = [], inboxErrorHandler = None,
      documentLoader = DocumentLoader 0,
      authenticatedDocumentLoaderFactory = (\<lambda>u k. Inr (DocumentLoader 1)),
      treatHttps = False, onOutboxError = Some (\<lambda>err act. None),
      backoffSchedule = [3000, 15000, 60000, 900000, 3600000]\<rparr>"
  by (simp add: example_federation_def new_Federation_def Router_add_def Router_has_def
      lit_def example_parameters_def world_def default_backoffSchedule_def)

lemma outbox_errors_append: "outbox_errors (xs @ ys) = outbox_errors xs @ outbox_errors ys"
  by (induction xs rule: outbox_errors.induct) simp_all

lemma outbox_errors_sendActivity:
  "outbox_errors (fst (sendActivity e act privKey kid inbox_url loader)) = []"
  by (simp add: sendActivity_def Let_def split: sum.splits)

lemma outbox_errors_listenQueue_try: "outbox_errors (fst (listenQueue_try e fed message)) = []"
proof -
  have "outbox_errors (fst (case sendActivity e act privKey kid u loader of
                              (evs, r) \<Rightarrow> (FromJsonLd j # evs, Some act, r))) = []"
    for act privKey kid u loader j
    using outbox_errors_sendActivity [of e act privKey kid u loader]
    by (cases "sendActivity e act privKey kid u loader") simp
  then show ?thesis
    by (simp add: listenQueue_try_def split: sum.splits)
qed

text \<open>
  When the \<open>try\<close> block throws, the handler (if there is one) is called once with the
  error and the activity variable, and the message goes back on the queue with the next
  trial and the delay the schedule has at the present trial, as long as the schedule has
  one; past the schedule nothing is enqueued.
\<close>

lemma listenQueue_on_throw:
  assumes "listenQueue_try e fed message = (evs, act, Inl err)"
  shows "outbox_errors (listenQueue e fed message)
           = (if onOutboxError fed = None then [] else [(err, act)])"
    and "enqueued (listenQueue e fed message)
           = (if trial message < length (backoffSchedule fed) \<and> queue fed \<noteq> None
              then [(message\<lparr>trial := trial message + 1\<rparr>,
                     Some (backoffSchedule fed ! trial message))]
              else [])"
proof -
  have no: "outbox_errors evs = []"
    using outbox_errors_listenQueue_try [of e fed message] assms by simp
  show "outbox_errors (listenQueue e fed message)
          = (if onOutboxError fed = None then [] else [(err, act)])"
    by (auto simp: listenQueue_def assms no outbox_errors_append split: option.splits)
  show "enqueued (listenQueue e fed message)
          = (if trial message < length (backoffSchedule fed) \<and> queue fed \<noteq> None
             then [(message\<lparr>trial := trial message + 1\<rparr>,
                    Some (backoffSchedule fed ! trial message))]
             else [])"
    by (simp add: enqueued_listenQueue assms)
qed

text \<open>
  When the \<open>try\<close> block returns, whatever \<open>sendActivity\<close> returned, the handler is not
  called and nothing is enqueued.
\<close>

lemma listenQueue_on_return:
  assumes "listenQueue_try e fed message = (evs, act, Inr sent)"
  shows "listenQueue e fed message
           = evs @ [Log Info ''Successfully sent activity {activityId} to {inbox}.'']"
  by (simp add: listenQueue_def assms)

text \<open>
  Claim C2. A delivery that fails is to be retried while the schedule lasts. A remote
  inbox that answers with an error status makes \<open>sendActivity\<close> return \<open>false\<close> without
  throwing; the listener does not look at the result, logs a success and enqueues
  nothing, although the trial is below the length of the schedule.
\<close>

theorem listenQueue_error_status_not_retried:
  "listenQueue (world\<lparr>fetch := (\<lambda>r. Inr \<lparr>status = 500\<rparr>)\<rparr>) example_federation example_message
     = [FromJsonLd ''{Create}'',
        ToJsonLd example_activity,
        Fetch \<lparr>url = example_shared_inbox, req_method = ''POST'',
               headers = [(''Content-Type'', ''application/ld+json''),
                          (''Signature'', ''keyId=...'')],
               body = Some ''{Create}''\<rparr>,
        Log Info ''Successfully sent activity {activityId} to {inbox}.'']"
  by (simp add: listenQueue_def listenQueue_try_def sendActivity_def example_federation_eq
      world_def example_message_def example_activity_def ok_def)

text \<open>
  The run of a message through the queue has at most one attempt more than the schedule
  has entries left at the message's trial.
\<close>

lemma enqueued_listenQueue_cases:
  "enqueued (listenQueue e fed message) = []
   \<or> (enqueued (listenQueue e fed message)
        = [(message\<lparr>trial := trial message + 1\<rparr>, Some (backoffSchedule fed ! trial message))]
      \<and> trial message < length (backoffSchedule fed))"
proof -
  obtain evs act r where t: "listenQueue_try e fed message = (evs, act, r)"
    by (cases "listenQueue_try e fed message") auto
  show ?thesis
    unfolding enqueued_listenQueue t by (cases r) auto
qed

lemma deliveries_length:
  "length (deliveries envs fed message) \<le> Suc (length (backoffSchedule fed) - trial message)"
proof (induction envs fed message rule: deliveries.induct)
  case (1 envs fed message)
  let ?evs = "listenQueue (envs (trial message)) fed message"
  consider (none) "enqueued ?evs = []"
    | (one) "enqueued ?evs
               = [(message\<lparr>trial := trial message + 1\<rparr>,
                   Some (backoffSchedule fed ! trial message))]"
            "trial message < length (backoffSchedule fed)"
    using enqueued_listenQueue_cases [of "envs (trial message)" fed message] by blast
  then show ?case
  proof cases
    case none
    then show ?thesis by (subst deliveries.simps) simp
  next
    case one
    let ?m = "message\<lparr>trial := trial message + 1\<rparr>"
    have "length (deliveries envs fed ?m) \<le> Suc (length (backoffSchedule fed) - trial ?m)"
      using "1.IH" [of "(?m, Some (backoffSchedule fed ! trial message))"] one(1) by simp
    moreover have "deliveries envs fed message = ?evs # deliveries envs fed ?m"
      by (subst deliveries.simps) (simp add: one(1))
    ultimately show ?thesis using one(2) by simp
  qed
qed

text \<open>
  A message that starts at trial 0 is attempted at most \<open>1 + len(backoffSchedule)\<close> times.
\<close>

lemma deliveries_at_most:
  "trial message = 0 \<Longrightarrow> length (deliveries envs fed message) \<le> 1 + length (backoffSchedule fed)"
  using deliveries_length [of envs fed message] by simp

text \<open>
  Whatever the \<open>i\<close>-th attempt of the run enqueues is the message at trial \<open>i + 1\<close> (counted
  from the trial the run started at) with the delay the schedule has at position \<open>i\<close>.
\<close>

lemma deliveries_retry_delay:
  "i < length (deliveries envs fed message) \<Longrightarrow>
   (m, d) \<in> set (enqueued (deliveries envs fed message ! i)) \<Longrightarrow>
   m = message\<lparr>trial := trial message + i + 1\<rparr>
   \<and> d = Some (backoffSchedule fed ! (trial message + i))
   \<and> trial message + i < length (backoffSchedule fed)"
proof (induction envs fed message arbitrary: i rule: deliveries.induct)
  case (1 envs fed message)
  let ?evs = "listenQueue (envs (trial message)) fed message"
  let ?m = "message\<lparr>trial := trial message + 1\<rparr>"
  consider (none) "enqueued ?evs = []"
    | (one) "enqueued ?evs = [(?m, Some (backoffSchedule fed ! trial message))]"
            "trial message < length (backoffSchedule fed)"
    using enqueued_listenQueue_cases [of "envs (trial message)" fed message] by blast
  then show ?case
  proof cases
    case none
    have eq: "deliveries envs fed message = [?evs]"
      by (subst deliveries.simps) (simp add: none)
    from "1.prems" show ?thesis by (simp add: eq none)
  next
    case one
    have eq: "deliveries envs fed message = ?evs # deliveries envs fed ?m"
      by (subst deliveries.simps) (simp add: one(1))
    show ?thesis
    proof (cases i)
      case 0
      with "1.prems" one show ?thesis by (simp add: eq)
    next
      case (Suc j)
      have "j < length (deliveries envs fed ?m)"
        and "(m, d) \<in> set (enqueued (deliveries envs fed ?m ! j))"
        using "1.prems" Suc by (simp_all add: eq)
      then have "m = ?m\<lparr>trial := trial ?m + j + 1\<rparr>
                 \<and> d = Some (backoffSchedule fed ! (trial ?m + j))
                 \<and> trial ?m + j < length (backoffSchedule fed)"
        using "1.IH" [of "(?m, Some (backoffSchedule fed ! trial message))" j] one(1) by simp
      then show ?thesis using Suc by simp
    qed
  qed
qed

text \<open>
  The retry schedule. When the delivery attempt of a message throws and a queue is set,
  the error handler, if any, is called once with the error and the activity as far as it
  was deserialised, and the message is enqueued again exactly when its trial is below
  the length of the schedule, then with the next trial and the delay the schedule has at
  the present trial.
\<close>

theorem listenQueue_retry_schedule:
  "listenQueue_try e fed message = (evs, act, Inl err) \<and> queue fed \<noteq> None \<longrightarrow>
     outbox_errors (listenQueue e fed message)
       = (if onOutboxError fed = None then [] else [(err, act)])
     \<and> enqueued (listenQueue e fed message)
       = (if trial message < length (backoffSchedule fed)
          then [(message\<lparr>trial := trial message + 1\<rparr>,
                 Some (backoffSchedule fed ! trial message))]
          else [])"
  using listenQueue_on_throw [of e fed message evs act err] by simp

theorem listenQueue_retry_schedule_witness:
  "listenQueue_try (world\<lparr>fetch := (\<lambda>r. Inl (TypeError ''fetch failed''))\<rparr>)
     example_federation (example_message\<lparr>trial := 4\<rparr>)
     = ([FromJsonLd ''{Create}'', ToJsonLd example_activity,
         Fetch \<lparr>url = example_shared_inbox, req_method = ''POST'',
                headers = [(''Content-Type'', ''application/ld+json''),
                           (''Signature'', ''keyId=...'')],
                body = Some ''{Create}''\<rparr>],
        Some example_activity, Inl (TypeError ''fetch failed''))
   \<and> outbox_errors (listenQueue (world\<lparr>fetch := (\<lambda>r. Inl (TypeError ''fetch failed''))\<rparr>)
                      example_federation (example_message\<lparr>trial := 4\<rparr>))
     = [(TypeError ''fetch failed'', Some example_activity)]
   \<and> enqueued (listenQueue (world\<lparr>fetch := (\<lambda>r. Inl (TypeError ''fetch failed''))\<rparr>)
                  example_federation (example_message\<lparr>trial := 4\<rparr>))
     = [(example_message\<lparr>trial := 5\<rparr>, Some 3600000)]"
proof -
  let ?w = "world\<lparr>fetch := (\<lambda>r. Inl (TypeError ''fetch failed''))\<rparr>"
  let ?m = "example_message\<lparr>trial := 4\<rparr>"
  have t: "listenQueue_try ?w example_federation ?m
             = ([FromJsonLd ''{Create}'', ToJsonLd example_activity,
                 Fetch \<lparr>url = example_shared_inbox, req_method = ''POST'',
                        headers = [(''Content-Type'', ''application/ld+json''),
                                   (''Signature'', ''keyId=...'')],
                        body = Some ''{Create}''\<rparr>],
                Some example_activity, Inl (TypeError ''fetch failed''))"
    by (simp add: listenQueue_try_def sendActivity_def example_federation_eq world_def
        example_message_def example_activity_def)
  have q: "queue example_federation \<noteq> None"
    and h: "onOutboxError example_federation \<noteq> None"
    and s: "backoffSchedule example_federation = [3000, 15000, 60000, 900000, 3600000]"
    by (simp_all add: example_federation_eq)
  from listenQueue_retry_schedule
    [of ?w example_federation ?m _ "Some example_activity" "TypeError ''fetch failed''"]
    t q h
  show ?thesis by (simp add: s example_message_def)
qed

text \<open>
  The number of attempts. A message is attempted at most once more than the schedule has
  entries left at its trial, hence a message sent at trial 0 at most
  \<open>1 + len(backoffSchedule)\<close> times; and the retry enqueued by the \<open>i\<close>-th attempt
  (counting from 0) of a message sent at trial 0 carries trial \<open>i + 1\<close> and the delay
  \<open>backoffSchedule[i]\<close>.
\<close>

theorem outbound_attempts_bounded:
  "length (deliveries envs fed message) \<le> Suc (length (backoffSchedule fed) - trial message)
   \<and> (trial message = 0 \<longrightarrow>
        length (deliveries envs fed message) \<le> 1 + length (backoffSchedule fed)
        \<and> (\<forall>i < length (deliveries envs fed message).
              \<forall>(m, d) \<in> set (enqueued (deliveries envs fed message ! i)).
                trial m = i + 1 \<and> d = Some (backoffSchedule fed ! i)
                \<and> i < length (backoffSchedule fed)))"
proof -
  have "trial m = i + 1 \<and> d = Some (backoffSchedule fed ! i) \<and> i < length (backoffSchedule fed)"
    if "trial message = 0" and "i < length (deliveries envs fed message)"
      and "(m, d) \<in> set (enqueued (deliveries envs fed message ! i))" for i m d
    using deliveries_retry_delay [OF that(2,3)] that(1) by simp
  then show ?thesis
    using deliveries_length [of envs fed message] deliveries_at_most [of message envs fed]
    by auto
qed

theorem outbound_attempts_bounded_witness:
  "trial example_message = 0
   \<and> length (deliveries (\<lambda>n. world\<lparr>fetch := (\<lambda>r. Inl (TypeError ''fetch failed''))\<rparr>)
               example_federation example_message) \<le> 6
   \<and> enqueued (deliveries (\<lambda>n. world\<lparr>fetch := (\<lambda>r. Inl (TypeError ''fetch failed''))\<rparr>)
                  example_federation example_message ! 0)
       = [(example_message\<lparr>trial := 1\<rparr>, Some 3000)]"
proof -
  let ?envs = "\<lambda>n::nat. world\<lparr>fetch := (\<lambda>r. Inl (TypeError ''fetch failed''))\<rparr>"
  have z: "trial example_message = 0"
    by (simp add: example_message_def)
  have s: "length (backoffSchedule example_federation) = 5"
    by (simp add: example_federation_eq)
  have first: "deliveries ?envs example_federation example_message ! 0
                 = listenQueue (?envs 0) example_federation example_message"
    by (subst deliveries.simps) (simp add: z)
  have enq: "enqueued (listenQueue (?envs 0) example_federation example_message)
               = [(example_message\<lparr>trial := 1\<rparr>, Some 3000)]"
    by (simp add: listenQueue_def listenQueue_try_def sendActivity_def example_federation_eq
        world_def example_message_def example_activity_def)
  from outbound_attempts_bounded [of ?envs example_federation example_message] z s
  have "length (deliveries ?envs example_federation example_message) \<le> 6"
    by simp
  with z first enq show ?thesis by simp
qed


text \<open>
  Claim C3, as the code has it. When the activity of a message fails to deserialise, the
  error handler (if one is configured) is called once, with no activity. The message is
  not dropped for that: like after every other failure it is enqueued again with the next
  trial and the delay of the schedule at the present trial, as long as the trial is below
  the length of the schedule and the queue is set; it is dropped only past the schedule.
\<close>

theorem listenQueue_deserialization_failure:
  assumes "parseURL e (keyId message) = Inr kid"
    and "importJwk e (privateKey message) = Inr privKey"
    and "authenticatedDocumentLoaderFactory fed kid privKey = Inr loader"
    and "fromJsonLd e (activity message) loader = Inl err"
  shows "outbox_errors (listenQueue e fed message)
           = (if onOutboxError fed = None then [] else [(err, None)])
         \<and> enqueued (listenQueue e fed message)
           = (if trial message < length (backoffSchedule fed) \<and> queue fed \<noteq> None
              then [(message\<lparr>trial := trial message + 1\<rparr>,
                     Some (backoffSchedule fed ! trial message))]
              else [])
         \<and> fetched (listenQueue e fed message) = []"
proof -
  have t: "listenQueue_try e fed message = ([FromJsonLd (activity message)], None, Inl err)"
    by (simp add: listenQueue_try_def assms)
  have "fetched (listenQueue e fed message) = []"
    by (simp add: listenQueue_def t split: option.splits)
  with listenQueue_on_throw [OF t] show ?thesis by simp
qed

theorem listenQueue_deserialization_failure_witness:
  "outbox_errors (listenQueue world example_federation (example_message\<lparr>activity := ''{''\<rparr>))
     = [(Error ''Invalid JSON-LD'', None)]
   \<and> enqueued (listenQueue world example_federation (example_message\<lparr>activity := ''{''\<rparr>))
     = [(example_message\<lparr>activity := ''{'', trial := 1\<rparr>, Some 3000)]
   \<and> fetched (listenQueue world example_federation (example_message\<lparr>activity := ''{''\<rparr>)) = []"
proof -
  have "parseURL world (keyId (example_message\<lparr>activity := ''{''\<rparr>)) = Inr example_key_id"
    by (simp add: world_def example_message_def)
  moreover have "importJwk world (privateKey (example_message\<lparr>activity := ''{''\<rparr>))
                   = Inr (CryptoKey 1)"
    by (simp add: world_def)
  moreover have "authenticatedDocumentLoaderFactory example_federation example_key_id (CryptoKey 1)
                   = Inr (DocumentLoader 1)"
    by (simp add: example_federation_eq)
  moreover have "fromJsonLd world (activity (example_message\<lparr>activity := ''{''\<rparr>)) (DocumentLoader 1)
                   = Inl (Error ''Invalid JSON-LD'')"
    by (simp add: world_def)
  ultimately show ?thesis
    using listenQueue_deserialization_failure
      [of world "example_message\<lparr>activity := ''{''\<rparr>" example_key_id "CryptoKey 1"
          example_federation "DocumentLoader 1" "Error ''Invalid JSON-LD''"]
    by (simp add: example_federation_eq example_message_def)
qed

text \<open>
  The claim as stated fails: the message whose activity does not deserialise is on the
  queue again, at trial 1 with the first delay of the schedule.
\<close>

theorem listenQueue_deserialization_failure_is_retried:
  "listenQueue_try world example_federation (example_message\<lparr>activity := ''{''\<rparr>)
     = ([FromJsonLd ''{''], None, Inl (Error ''Invalid JSON-LD''))
   \<and> enqueued (listenQueue world example_federation (example_message\<lparr>activity := ''{''\<rparr>))
       = [(example_message\<lparr>activity := ''{'', trial := 1\<rparr>, Some 3000)]"
  by (simp add: listenQueue_def listenQueue_try_def example_federation_eq world_def
      example_message_def)

section \<open>Properties of the memoised signature verification\<close>

text \<open>
  An awaited call as one step: the stored value if there is one; otherwise the
  verification, whose key is stored if it returns.
\<close>

lemma getSignedKey_eq:
  "getSignedKey e rc =
     (case signedKey rc of
        Some k \<Rightarrow> ([], Inr k, rc)
      | None \<Rightarrow>
          (case verify e (request rc) (loader_of rc) of
             Inl err \<Rightarrow> ([Verify (request rc)], Inl err, rc)
           | Inr k \<Rightarrow> ([Verify (request rc)], Inr k, rc\<lparr>signedKey := Some k\<rparr>)))"
  by (simp add: getSignedKey_def getSignedKey_begin_def getSignedKey_settle_def
      split: option.splits sum.splits)

lemma getSignedKeyOwner_eq:
  "getSignedKeyOwner e rc =
     (case signedKeyOwner rc of
        Some ownr \<Rightarrow> ([], Inr ownr, rc)
      | None \<Rightarrow>
          (case getSignedKey e rc of
             (evs, Inl err, rc1) \<Rightarrow> (evs, Inl err, rc1)
           | (evs, Inr None, rc1) \<Rightarrow> (evs, Inr None, rc1\<lparr>signedKeyOwner := Some None\<rparr>)
           | (evs, Inr (Some k), rc1) \<Rightarrow>
               (case getKeyOwner e k (loader_of rc1) of
                  Inl err \<Rightarrow> (evs @ [KeyOwnerLookup k], Inl err, rc1)
                | Inr ownr \<Rightarrow>
                    (evs @ [KeyOwnerLookup k], Inr ownr, rc1\<lparr>signedKeyOwner := Some ownr\<rparr>))))"
  by (simp add: getSignedKeyOwner_def getSignedKeyOwner_begin_def getSignedKeyOwner_key_def
      getSignedKeyOwner_settle_def getSignedKey_def getSignedKey_begin_def
      getSignedKey_settle_def
      split: option.splits sum.splits)

lemma getSignedKey_cases:
  "getSignedKey e rc = (evs, r, rc1) \<Longrightarrow>
   (signedKey rc = Some k \<longrightarrow> evs = [] \<and> r = Inr k \<and> rc1 = rc)
   \<and> (signedKey rc = None \<longrightarrow>
        evs = [Verify (request rc)] \<and> r = verify e (request rc) (loader_of rc)
        \<and> rc1 = (case r of Inl err \<Rightarrow> rc | Inr v \<Rightarrow> rc\<lparr>signedKey := Some v\<rparr>))"
  by (auto simp: getSignedKey_eq split: option.splits sum.splits)

lemma getSignedKey_frame:
  "getSignedKey e rc = (evs, r, rc1) \<Longrightarrow>
   request rc1 = request rc \<and> loader_of rc1 = loader_of rc \<and> signedKeyOwner rc1 = signedKeyOwner rc"
  by (auto simp: getSignedKey_eq split: option.splits sum.splits)

lemma getSignedKey_returns:
  "getSignedKey e rc = (evs, Inr k, rc1) \<Longrightarrow>
   signedKey rc1 = Some k \<and> verifications evs \<le> 1 \<and> (signedKey rc \<noteq> None \<longrightarrow> evs = [])"
  by (auto simp: getSignedKey_eq split: option.splits sum.splits)

lemma getSignedKey_again:
  "signedKey rc = Some k \<Longrightarrow> getSignedKey e rc = ([], Inr k, rc)"
  by (simp add: getSignedKey_eq)

lemma getSignedKeyOwner_again:
  "signedKeyOwner rc = Some ownr \<Longrightarrow> getSignedKeyOwner e rc = ([], Inr ownr, rc)"
  by (simp add: getSignedKeyOwner_eq)

lemma getSignedKeyOwner_returns:
  assumes "getSignedKeyOwner e rc = (evs, Inr ownr, rc1)"
  shows "signedKeyOwner rc1 = Some ownr"
proof (cases "signedKeyOwner rc")
  case (Some x)
  with assms show ?thesis by (simp add: getSignedKeyOwner_eq)
next
  case None
  obtain evs0 r0 rc0 where k: "getSignedKey e rc = (evs0, r0, rc0)"
    by (cases "getSignedKey e rc") auto
  from assms None k show ?thesis
    by (auto simp: getSignedKeyOwner_eq split: sum.splits option.splits)
qed

lemma getSignedKeyOwner_from_key:
  assumes "signedKeyOwner rc = None" and "getSignedKey e rc = (evs, Inr k, rc1)"
  shows "fst (snd (getSignedKeyOwner e rc))
           = (case k of None \<Rightarrow> Inr None | Some key \<Rightarrow> getKeyOwner e key (loader_of rc))"
proof -
  have "loader_of rc1 = loader_of rc"
    using getSignedKey_frame [OF assms(2)] by simp
  then show ?thesis
    using assms by (auto simp: getSignedKeyOwner_eq split: option.splits sum.splits)
qed

text \<open>
  Once the key is known, no sequence of further calls verifies the signature again.
\<close>

lemma getSignedKeyOwner_known_key:
  assumes "signedKey rc = Some k" and "getSignedKeyOwner e rc = (evs, r, rc1)"
  shows "verifications evs = 0 \<and> signedKey rc1 = Some k"
proof (cases "signedKeyOwner rc")
  case (Some x)
  with assms show ?thesis by (simp add: getSignedKeyOwner_eq)
next
  case None
  have "getSignedKey e rc = ([], Inr k, rc)"
    using assms(1) by (rule getSignedKey_again)
  with assms None show ?thesis
    by (auto simp: getSignedKeyOwner_eq split: option.splits sum.splits)
qed

lemma verifications_append: "verifications (xs @ ys) = verifications xs + verifications ys"
  by (induction xs rule: verifications.induct) simp_all

lemma signature_calls_known_key:
  "signedKey rc = Some k \<Longrightarrow> verifications (signature_calls e rc cs) = 0"
proof (induction cs arbitrary: rc)
  case Nil
  then show ?case by simp
next
  case (Cons c cs)
  show ?case
  proof (cases c)
    case True
    then show ?thesis
      using Cons.IH [OF Cons.prems] by (simp add: getSignedKey_again [OF Cons.prems])
  next
    case False
    obtain evs r rc1 where o: "getSignedKeyOwner e rc = (evs, r, rc1)"
      by (cases "getSignedKeyOwner e rc") auto
    have "verifications evs = 0" and "signedKey rc1 = Some k"
      using getSignedKeyOwner_known_key [OF Cons.prems o] by simp_all
    then show ?thesis
      using False o Cons.IH [of rc1] by (simp add: verifications_append)
  qed
qed

lemma getSignedKeyOwner_first:
  assumes "verify e (request rc) (loader_of rc) = Inr k"
    and "getSignedKeyOwner e rc = (evs, r, rc1)"
  shows "verifications evs \<le> 1 \<and> (signedKey rc1 \<noteq> None \<or> (rc1 = rc \<and> evs = []))"
proof (cases "signedKey rc")
  case (Some x)
  then show ?thesis using getSignedKeyOwner_known_key [OF Some assms(2)] by simp
next
  case None
  note nokey = None
  show ?thesis
  proof (cases "signedKeyOwner rc")
    case (Some x)
    with assms(2) show ?thesis by (simp add: getSignedKeyOwner_eq)
  next
    case None
    have "getSignedKey e rc = ([Verify (request rc)], Inr k, rc\<lparr>signedKey := Some k\<rparr>)"
      using nokey assms(1) by (simp add: getSignedKey_eq)
    with assms(2) None show ?thesis
      by (auto simp: getSignedKeyOwner_eq verifications_append split: option.splits sum.splits)
  qed
qed

lemma signature_calls_verify_once:
  "verify e (request rc) (loader_of rc) = Inr k \<Longrightarrow> verifications (signature_calls e rc cs) \<le> 1"
proof (induction cs arbitrary: rc)
  case Nil
  then show ?case by simp
next
  case (Cons c cs)
  show ?case
  proof (cases c)
    case True
    show ?thesis
    proof (cases "signedKey rc")
      case None
      have g: "getSignedKey e rc = ([Verify (request rc)], Inr k, rc\<lparr>signedKey := Some k\<rparr>)"
        using None Cons.prems by (simp add: getSignedKey_eq)
      have "verifications (signature_calls e (rc\<lparr>signedKey := Some k\<rparr>) cs) = 0"
        by (rule signature_calls_known_key) simp
      then show ?thesis using True g by (simp add: verifications_append)
    next
      case (Some x)
      have "verifications (signature_calls e rc cs) = 0"
        using Some by (rule signature_calls_known_key)
      then show ?thesis using True by (simp add: getSignedKey_again [OF Some])
    qed
  next
    case False
    obtain evs r rc1 where o: "getSignedKeyOwner e rc = (evs, r, rc1)"
      by (cases "getSignedKeyOwner e rc") auto
    have first: "verifications evs \<le> 1"
      and after: "signedKey rc1 \<noteq> None \<or> (rc1 = rc \<and> evs = [])"
      using getSignedKeyOwner_first [OF Cons.prems o] by simp_all
    from after show ?thesis
    proof
      assume "signedKey rc1 \<noteq> None"
      then obtain x where "signedKey rc1 = Some x" by auto
      then have "verifications (signature_calls e rc1 cs) = 0"
        by (rule signature_calls_known_key)
      then show ?thesis using False o first by (simp add: verifications_append)
    next
      assume same: "rc1 = rc \<and> evs = []"
      then show ?thesis using False o Cons.IH [OF Cons.prems] by simp
    qed
  qed
qed

text \<open>
  Claim C4, as the code has it. Calls are awaited one after the other. When a call of
  \<open>getSignedKey()\<close> returns, the value is stored, and the next call returns the very same
  value without any event, whatever the world would answer then; the same holds of
  \<open>getSignedKeyOwner()\<close>. The owner is computed from the result of \<open>getSignedKey()\<close>
  alone (none for no key, the key's owner otherwise). A computed none is stored as such,
  apart from the state of a fresh context, so it is not computed again. And when the
  verification returns, no sequence of awaited calls of the two functions runs it more
  than once.
\<close>

theorem signed_key_memoized:
  "(getSignedKey e rc = (evs, Inr k, rc1) \<longrightarrow>
      signedKey rc1 = Some k \<and> getSignedKey e' rc1 = ([], Inr k, rc1))
   \<and> (getSignedKeyOwner e rc = (evs', Inr ownr, rc2) \<longrightarrow>
      signedKeyOwner rc2 = Some ownr \<and> getSignedKeyOwner e' rc2 = ([], Inr ownr, rc2))
   \<and> (signedKeyOwner rc = None \<and> getSignedKey e rc = (evs, Inr k, rc1) \<longrightarrow>
      fst (snd (getSignedKeyOwner e rc))
        = (case k of None \<Rightarrow> Inr None | Some key \<Rightarrow> getKeyOwner e key (loader_of rc)))
   \<and> (verify e (request rc) (loader_of rc) = Inr k \<longrightarrow>
      verifications (signature_calls e rc cs) \<le> 1)
   \<and> signedKey (createRequestContext fed req) = None
   \<and> signedKeyOwner (createRequestContext fed req) = None"
proof -
  have "signedKey rc1 = Some k \<and> getSignedKey e' rc1 = ([], Inr k, rc1)"
    if "getSignedKey e rc = (evs, Inr k, rc1)"
    using getSignedKey_returns [OF that] getSignedKey_again [of rc1 k e'] by simp
  moreover have "signedKeyOwner rc2 = Some ownr \<and> getSignedKeyOwner e' rc2 = ([], Inr ownr, rc2)"
    if "getSignedKeyOwner e rc = (evs', Inr ownr, rc2)"
    using getSignedKeyOwner_returns [OF that] getSignedKeyOwner_again [of rc2 ownr e'] by simp
  ultimately show ?thesis
    using getSignedKeyOwner_from_key [of rc e evs k rc1]
      signature_calls_verify_once [of e rc k cs]
    by (simp add: createRequestContext_def)
qed

theorem signed_key_memoized_witness:
  "getSignedKey (signed_world 1) (createRequestContext example_federation example_request)
     = ([Verify example_request], Inr (Some (Ref 1 example_signing_key)),
        (createRequestContext example_federation example_request)
          \<lparr>signedKey := Some (Some (Ref 1 example_signing_key))\<rparr>)
   \<and> getSignedKey (signed_world 3)
        ((createRequestContext example_federation example_request)
           \<lparr>signedKey := Some (Some (Ref 1 example_signing_key))\<rparr>)
     = ([], Inr (Some (Ref 1 example_signing_key)),
        (createRequestContext example_federation example_request)
          \<lparr>signedKey := Some (Some (Ref 1 example_signing_key))\<rparr>)
   \<and> fst (snd (getSignedKeyOwner (signed_world 1)
                   (createRequestContext example_federation example_request)))
     = Inr (Some (Ref 2 alice))
   \<and> verifications
        (signature_calls (signed_world 1)
           (createRequestContext example_federation example_request)
           [True, False, True, False]) \<le> 1"
proof -
  let ?rc = "createRequestContext example_federation example_request"
  let ?k = "Some (Ref 1 example_signing_key)"
  have first: "getSignedKey (signed_world 1) ?rc
                 = ([Verify example_request], Inr ?k, ?rc\<lparr>signedKey := Some ?k\<rparr>)"
    by (simp add: getSignedKey_eq createRequestContext_def signed_world_def)
  have v: "verify (signed_world 1) (request ?rc) (loader_of ?rc) = Inr ?k"
    by (simp add: signed_world_def)
  have o: "signedKeyOwner ?rc = None"
    by (simp add: createRequestContext_def)
  have l: "getKeyOwner (signed_world 1) (Ref 1 example_signing_key) (loader_of ?rc)
             = Inr (Some (Ref 2 alice))"
    by (simp add: signed_world_def)
  show ?thesis
    using first v o l
      signed_key_memoized [of "signed_world 1" ?rc "[Verify example_request]" ?k
        "?rc\<lparr>signedKey := Some ?k\<rparr>" "signed_world 3" "[]" None ?rc
        "[True, False, True, False]" example_federation example_request]
    by simp
qed

text \<open>
  The claim as stated fails in two ways. A verification that throws stores nothing, so
  the next call verifies again: with the key document out of reach, two awaited calls
  run two verifications. And two calls started together both find the variable
  undefined, both verify, and each returns the key object of its own verification.
\<close>

theorem signed_key_verified_again:
  "getSignedKey unreachable_world (createRequestContext example_federation example_request)
     = ([Verify example_request], Inl (TypeError ''Failed to fetch''),
        createRequestContext example_federation example_request)
   \<and> verifications
        (signature_calls unreachable_world
           (createRequestContext example_federation example_request) [True, True]) = 2
   \<and> getSignedKey_together (signed_world 1) (signed_world 3)
        (createRequestContext example_federation example_request)
     = ([Verify example_request, Verify example_request],
        Inr (Some (Ref 1 example_signing_key)), Inr (Some (Ref 3 example_signing_key)),
        (createRequestContext example_federation example_request)
          \<lparr>signedKey := Some (Some (Ref 3 example_signing_key))\<rparr>)
   \<and> addr (Ref 1 example_signing_key) \<noteq> addr (Ref 3 example_signing_key)"
  by (simp add: getSignedKey_eq getSignedKey_together_def getSignedKey_begin_def
      getSignedKey_settle_def createRequestContext_def unreachable_world_def
      signed_world_def)

section \<open>Properties of sending\<close>

lemma startQueue_frame:
  "startQueue fed = (fed1, evs) \<Longrightarrow>
   queue fed1 = queue fed \<and> router fed1 = router fed
   \<and> authenticatedDocumentLoaderFactory fed1 = authenticatedDocumentLoaderFactory fed
   \<and> enqueued evs = [] \<and> fetched evs = []"
  by (auto simp: startQueue_def split: if_splits)

lemma fetched_append: "fetched (xs @ ys) = fetched xs @ fetched ys"
  by (induction xs rule: fetched.induct) simp_all

lemma first_rejection_None:
  "first_rejection rs = None \<Longrightarrow> r \<in> set rs \<Longrightarrow> \<exists>v. r = Inr v"
  by (induction rs rule: first_rejection.induct) auto

lemma first_rejection_all_return:
  "\<forall>r \<in> set rs. \<exists>v. r = Inr v \<Longrightarrow> first_rejection rs = None"
  by (induction rs rule: first_rejection.induct) auto

lemma promise_all_returns:
  "promise_all ps = (evs, Inr u) \<Longrightarrow> p \<in> set ps \<Longrightarrow> \<exists>v. snd p = Inr v"
  using first_rejection_None [of "map snd ps" "snd p"]
  by (auto simp: promise_all_def split: option.splits)

lemma promise_all_all_return:
  "\<forall>p \<in> set ps. \<exists>v. snd p = Inr v \<Longrightarrow> snd (promise_all ps) = Inr ()"
  using first_rejection_all_return [of "map snd ps"] by (simp add: promise_all_def)

lemma enqueued_concat_nil:
  "(\<And>x. x \<in> set xs \<Longrightarrow> enqueued x = []) \<Longrightarrow> enqueued (concat xs) = []"
  by (induction xs) (simp_all add: enqueued_append)

lemma fetched_concat: "fetched (concat xs) = concat (map fetched xs)"
  by (induction xs) (simp_all add: fetched_append)

lemma enqueued_map_Enqueue: "enqueued (map (\<lambda>x. Enqueue (f x) d) xs) = map (\<lambda>x. (f x, d)) xs"
  by (induction xs) simp_all

lemma fetched_map_Enqueue: "fetched (map (\<lambda>x. Enqueue (f x) d) xs) = []"
  by (induction xs) simp_all

lemma Federation_sendActivity_queued:
  assumes "actorId act \<noteq> None"
    and "validateCryptoKey e privKey = None"
    and "authenticatedDocumentLoaderFactory fed kid privKey = Inr loader"
    and "queue fed \<noteq> None" and "\<not> truthy (immediate opts)"
    and "Federation_sendActivity e fed kid privKey rcpts act opts = (fed1, evs, r)"
  shows "fetched evs = []
         \<and> (r = Inr () \<longleftrightarrow>
              (\<exists>jwk doc. exportJwk e privKey = Inr jwk
                 \<and> toJsonLd e (with_id e act) loader = Inr doc))
         \<and> (\<forall>jwk doc. exportJwk e privKey = Inr jwk
                \<and> toJsonLd e (with_id e act) loader = Inr doc \<longrightarrow>
                enqueued evs
                  = map (\<lambda>i. (outbox_message kid jwk doc i, None)) (inboxes_of rcpts opts))
         \<and> (r \<noteq> Inr () \<longrightarrow> enqueued evs = [])"
proof -
  obtain f1 evs0 where sq: "startQueue fed = (f1, evs0)"
    by (cases "startQueue fed") auto
  note fr = startQueue_frame [OF sq]
  from assms(6) show ?thesis
    using assms(1-5) fr
    by (auto simp: Federation_sendActivity_def sq Let_def with_id_def inboxes_of_def
        outbox_message_def enqueued_append fetched_append enqueued_map_Enqueue
        fetched_map_Enqueue
        split: sum.splits)
qed

lemma Federation_sendActivity_immediate:
  assumes "actorId act \<noteq> None"
    and "validateCryptoKey e privKey = None"
    and "authenticatedDocumentLoaderFactory fed kid privKey = Inr loader"
    and "truthy (immediate opts) \<or> queue fed = None"
    and "Federation_sendActivity e fed kid privKey rcpts act opts = (fed1, evs, r)"
  shows "enqueued evs = []
         \<and> fetched evs
             = concat (map (\<lambda>i. fetched (fst (sendActivity e (with_id e act) privKey kid (deref i) loader)))
                         (inboxes_of rcpts opts))
         \<and> (r = Inr () \<longleftrightarrow>
              (\<forall>i \<in> set (inboxes_of rcpts opts).
                 \<exists>sent. snd (sendActivity e (with_id e act) privKey kid (deref i) loader) = Inr sent))"
proof -
  obtain f1 evs0 where sq: "startQueue fed = (f1, evs0)"
    by (cases "startQueue fed") auto
  note fr = startQueue_frame [OF sq]
  let ?ps = "map (\<lambda>i. sendActivity e (with_id e act) privKey kid (deref i) loader)
               (inboxes_of rcpts opts)"
  obtain evs3 r3 where pa: "promise_all ?ps = (evs3, r3)"
    by (cases "promise_all ?ps") auto
  have evs3: "evs3 = concat (map fst ?ps)"
    using pa by (simp add: promise_all_def)
  have shape: "evs = evs0 @ [Log Debug ''Sending activity {activityId} to inboxes:{inboxes}'']
                 @ [if truthy (immediate opts) then
                      Log Debug ''Sending activity immediately without queue since immediate option is set.''
                    else
                      Log Debug ''Sending activity immediately without queue since queue is not set.'']
                 @ evs3 \<and> r = r3"
    using assms fr pa
    by (auto simp: Federation_sendActivity_def sq Let_def with_id_def inboxes_of_def)
  have no_enq: "enqueued evs3 = []"
    unfolding evs3 by (rule enqueued_concat_nil) (auto simp: enqueued_sendActivity)
  have f3: "fetched evs3 = concat (map (\<lambda>i. fetched (fst (sendActivity e (with_id e act) privKey kid (deref i) loader)))
                                    (inboxes_of rcpts opts))"
    unfolding evs3 by (simp add: fetched_concat comp_def)
  have all: "\<exists>sent. snd (sendActivity e (with_id e act) privKey kid (deref i) loader) = Inr sent"
    if "r = Inr ()" and "i \<in> set (inboxes_of rcpts opts)" for i
  proof -
    have "promise_all ?ps = (evs3, Inr ())" using pa shape that(1) by simp
    moreover have "sendActivity e (with_id e act) privKey kid (deref i) loader \<in> set ?ps"
      using that(2) by auto
    ultimately show ?thesis by (rule promise_all_returns)
  qed
  have conv: "r = Inr ()"
    if "\<forall>i \<in> set (inboxes_of rcpts opts).
          \<exists>sent. snd (sendActivity e (with_id e act) privKey kid (deref i) loader) = Inr sent"
  proof -
    have "snd (promise_all ?ps) = Inr ()"
      using that by (intro promise_all_all_return) auto
    then show ?thesis using pa shape by simp
  qed
  have "enqueued evs = []"
    using shape no_enq fr by (auto simp: enqueued_append)
  moreover have "fetched evs
                   = concat (map (\<lambda>i. fetched (fst (sendActivity e (with_id e act) privKey kid
                                                       (deref i) loader)))
                               (inboxes_of rcpts opts))"
    using shape f3 fr by (auto simp: fetched_append)
  ultimately show ?thesis
    using all conv by blast
qed

lemma Federation_sendActivity_returns:
  assumes "Federation_sendActivity e fed kid privKey rcpts act opts = (fed1, evs, Inr u)"
  shows "actorId act \<noteq> None \<and> validateCryptoKey e privKey = None
         \<and> (\<exists>loader. authenticatedDocumentLoaderFactory fed kid privKey = Inr loader)"
proof -
  obtain f1 evs0 where sq: "startQueue fed = (f1, evs0)"
    by (cases "startQueue fed") auto
  note fr = startQueue_frame [OF sq]
  from assms fr show ?thesis
    by (auto simp: Federation_sendActivity_def sq Let_def split: if_splits option.splits sum.splits)
qed

text \<open>
  Claim C9. The activity that goes out is the given one if it has an id, and otherwise a
  clone whose id is \<open>urn:uuid:\<close> followed by the random UUID. A call of
  \<open>Federation.sendActivity\<close> returns only if the activity has an actor, the key is valid
  and the document loader factory returns. Under these three conditions:

  \<^item> when \<open>immediate\<close> is set or no queue is configured, nothing is enqueued, one
    delivery of that activity per extracted inbox is issued, whether or not another one
    fails, and the call returns if and only if every one of them has returned;

  \<^item> otherwise nothing is put on the network, the call returns if and only if the key
    is exported and the activity is serialised, and then exactly one message per
    extracted inbox is enqueued, in the order of the inboxes, each with the serialised
    activity, the href of the inbox and trial 0; if the call throws, nothing is
    enqueued.
\<close>

theorem Federation_sendActivity_fan_out:
  assumes "Federation_sendActivity e fed kid privKey rcpts act opts = (fed1, evs, r)"
  shows "(id' act = None \<longrightarrow>
            map_option href (id' (with_id e act)) = Some (''urn:uuid:'' @ randomUUID e))
         \<and> (id' act \<noteq> None \<longrightarrow> with_id e act = act)
         \<and> (r = Inr () \<longrightarrow>
              actorId act \<noteq> None \<and> validateCryptoKey e privKey = None
              \<and> (\<exists>loader. authenticatedDocumentLoaderFactory fed kid privKey = Inr loader))
         \<and> (\<forall>loader.
              actorId act \<noteq> None \<and> validateCryptoKey e privKey = None
              \<and> authenticatedDocumentLoaderFactory fed kid privKey = Inr loader \<longrightarrow>
              (if truthy (immediate opts) \<or> queue fed = None then
                 enqueued evs = []
                 \<and> fetched evs
                     = concat (map (\<lambda>i. fetched (fst (sendActivity e (with_id e act) privKey kid
                                                         (deref i) loader)))
                                 (inboxes_of rcpts opts))
                 \<and> (r = Inr () \<longleftrightarrow>
                      (\<forall>i \<in> set (inboxes_of rcpts opts).
                         \<exists>sent. snd (sendActivity e (with_id e act) privKey kid (deref i) loader)
                                  = Inr sent))
               else
                 fetched evs = []
                 \<and> (r = Inr () \<longleftrightarrow>
                      (\<exists>jwk doc. exportJwk e privKey = Inr jwk
                         \<and> toJsonLd e (with_id e act) loader = Inr doc))
                 \<and> (\<forall>jwk doc.
                      exportJwk e privKey = Inr jwk
                      \<and> toJsonLd e (with_id e act) loader = Inr doc \<longrightarrow>
                      enqueued evs
                        = map (\<lambda>i. (\<lparr>type' = ''outbox'', keyId = href kid, privateKey = jwk,
                                     activity = doc, inbox = href (deref i), trial = 0\<rparr>,
                                    None))
                            (inboxes_of rcpts opts))
                 \<and> (r \<noteq> Inr () \<longrightarrow> enqueued evs = [])))"
proof -
  have ids: "(id' act = None \<longrightarrow>
               map_option href (id' (with_id e act)) = Some (''urn:uuid:'' @ randomUUID e))
             \<and> (id' act \<noteq> None \<longrightarrow> with_id e act = act)"
    by (simp add: with_id_def urn_uuid_def href_def)
  have ret: "actorId act \<noteq> None \<and> validateCryptoKey e privKey = None
             \<and> (\<exists>loader. authenticatedDocumentLoaderFactory fed kid privKey = Inr loader)"
    if "r = Inr ()"
    using assms that by (intro Federation_sendActivity_returns [of e fed kid privKey rcpts act opts fed1 evs "()"]) simp
  have modes: "if truthy (immediate opts) \<or> queue fed = None then
                 enqueued evs = []
                 \<and> fetched evs
                     = concat (map (\<lambda>i. fetched (fst (sendActivity e (with_id e act) privKey kid
                                                         (deref i) loader)))
                                 (inboxes_of rcpts opts))
                 \<and> (r = Inr () \<longleftrightarrow>
                      (\<forall>i \<in> set (inboxes_of rcpts opts).
                         \<exists>sent. snd (sendActivity e (with_id e act) privKey kid (deref i) loader)
                                  = Inr sent))
               else
                 fetched evs = []
                 \<and> (r = Inr () \<longleftrightarrow>
                      (\<exists>jwk doc. exportJwk e privKey = Inr jwk
                         \<and> toJsonLd e (with_id e act) loader = Inr doc))
                 \<and> (\<forall>jwk doc.
                      exportJwk e privKey = Inr jwk
                      \<and> toJsonLd e (with_id e act) loader = Inr doc \<longrightarrow>
                      enqueued evs
                        = map (\<lambda>i. (\<lparr>type' = ''outbox'', keyId = href kid, privateKey = jwk,
                                     activity = doc, inbox = href (deref i), trial = 0\<rparr>,
                                    None))
                            (inboxes_of rcpts opts))
                 \<and> (r \<noteq> Inr () \<longrightarrow> enqueued evs = [])"
    if a: "actorId act \<noteq> None" and v: "validateCryptoKey e privKey = None"
      and l: "authenticatedDocumentLoaderFactory fed kid privKey = Inr loader"
    for loader
  proof (cases "truthy (immediate opts) \<or> queue fed = None")
    case True
    show ?thesis
      by (subst if_P [OF True]) (rule Federation_sendActivity_immediate [OF a v l True assms])
  next
    case False
    then have q: "queue fed \<noteq> None" and i: "\<not> truthy (immediate opts)" by simp_all
    show ?thesis
      by (subst if_not_P [OF False])
        (rule Federation_sendActivity_queued [OF a v l q i assms, unfolded outbox_message_def])
  qed
  from ids ret modes show ?thesis by blast
qed

theorem Federation_sendActivity_fan_out_witness:
  "snd (snd (Federation_sendActivity world example_federation example_key_id (CryptoKey 1)
               (Several [alice, bob]) example_activity example_options)) = Inr ()
   \<and> map_option href
        (id' (with_id world example_activity))
       = Some ''urn:uuid:6fa459ea-ee8a-4ca4-894e-db77e160355e''
   \<and> fetched (fst (snd (Federation_sendActivity world example_federation example_key_id
                          (CryptoKey 1) (Several [alice, bob]) example_activity example_options)))
       = []
   \<and> map (\<lambda>md. (inbox (fst md), trial (fst md), snd md))
        (enqueued (fst (snd (Federation_sendActivity world example_federation example_key_id
                               (CryptoKey 1) (Several [alice, bob]) example_activity
                               example_options))))
       = map (\<lambda>i. (href (deref i), 0, None)) (inboxes_of (Several [alice, bob]) example_options)
   \<and> snd (snd (Federation_sendActivity world example_federation example_key_id (CryptoKey 1)
                  (Several [alice, carol]) example_activity example_immediate)) = Inr ()
   \<and> enqueued (fst (snd (Federation_sendActivity world example_federation example_key_id
                           (CryptoKey 1) (Several [alice, carol]) example_activity
                           example_immediate)))
       = []
   \<and> map (\<lambda>rq. (url rq, req_method rq, body rq))
        (fetched (fst (snd (Federation_sendActivity world example_federation example_key_id
                              (CryptoKey 1) (Several [alice, carol]) example_activity
                              example_immediate))))
       = [(example_shared_inbox, ''POST'', Some ''{Create}''),
          (carol_inbox, ''POST'', Some ''{Create}'')]"
proof -
  let ?queued = "Federation_sendActivity world example_federation example_key_id (CryptoKey 1)
                   (Several [alice, bob]) example_activity example_options"
  let ?immediate = "Federation_sendActivity world example_federation example_key_id (CryptoKey 1)
                      (Several [alice, carol]) example_activity example_immediate"
  have pre: "actorId example_activity \<noteq> None \<and> validateCryptoKey world (CryptoKey 1) = None
             \<and> authenticatedDocumentLoaderFactory example_federation example_key_id (CryptoKey 1)
                 = Inr (DocumentLoader 1)"
    by (simp add: example_activity_def world_def example_federation_eq)
  have idn: "id' example_activity = None"
    by (simp add: example_activity_def)
  have q: "\<not> (truthy (immediate example_options) \<or> queue example_federation = None)"
    by (simp add: example_options_def truthy_def example_federation_eq)
  have i: "truthy (immediate example_immediate) \<or> queue example_federation = None"
    by (simp add: example_immediate_def truthy_def)
  have ser: "exportJwk world (CryptoKey 1) = Inr ''{jwk}''
             \<and> toJsonLd world (with_id world example_activity) (DocumentLoader 1) = Inr ''{Create}''"
    by (simp add: world_def with_id_def example_activity_def)
  have inboxes: "inboxes_of (Several [alice, carol]) example_immediate
                   = [Ref 1 example_shared_inbox, Ref 3 carol_inbox]"
    by (simp add: inboxes_of_def extractInboxes_def example_immediate_def alice_def carol_def
        truthy_def shared_or_personal_def inbox_of_def js_set_add_def)
  have sent: "sendActivity world (with_id world example_activity) k example_key_id inbox_url l
              = ([ToJsonLd (with_id world example_activity),
                  Fetch \<lparr>url = inbox_url, req_method = ''POST'',
                         headers = [(''Content-Type'', ''application/ld+json''),
                                    (''Signature'', ''keyId=...'')],
                         body = Some ''{Create}''\<rparr>],
                 Inr True)" for inbox_url k l
    by (simp add: sendActivity_def world_def with_id_def example_activity_def ok_def)
  obtain fed1 evs1 r1 where eq1: "?queued = (fed1, evs1, r1)"
    by (cases ?queued) auto
  obtain fed2 evs2 r2 where eq2: "?immediate = (fed2, evs2, r2)"
    by (cases ?immediate) auto
  from Federation_sendActivity_fan_out [OF eq1] pre q idn ser
  have "map_option href (id' (with_id world example_activity))
          = Some (''urn:uuid:'' @ randomUUID world)"
    and "r1 = Inr ()"
    and "fetched evs1 = []"
    and "enqueued evs1
           = map (\<lambda>i. (\<lparr>type' = ''outbox'', keyId = href example_key_id,
                          privateKey = ''{jwk}'', activity = ''{Create}'',
                          inbox = href (deref i), trial = 0\<rparr>, None))
               (inboxes_of (Several [alice, bob]) example_options)"
    by auto
  moreover from Federation_sendActivity_fan_out [OF eq2] pre i
  have "enqueued evs2 = []"
    and "fetched evs2
           = concat (map (\<lambda>i. fetched (fst (sendActivity world (with_id world example_activity)
                                               (CryptoKey 1) example_key_id (deref i)
                                               (DocumentLoader 1))))
                       (inboxes_of (Several [alice, carol]) example_immediate))"
    and "r2 = Inr () \<longleftrightarrow>
           (\<forall>i \<in> set (inboxes_of (Several [alice, carol]) example_immediate).
              \<exists>sent. snd (sendActivity world (with_id world example_activity) (CryptoKey 1)
                              example_key_id (deref i) (DocumentLoader 1)) = Inr sent)"
    by auto
  then have "enqueued evs2 = []"
    and "map (\<lambda>rq. (url rq, req_method rq, body rq)) (fetched evs2)
           = [(example_shared_inbox, ''POST'', Some ''{Create}''),
              (carol_inbox, ''POST'', Some ''{Create}'')]"
    and "r2 = Inr ()"
    by (auto simp: sent inboxes)
  moreover have "randomUUID world = ''6fa459ea-ee8a-4ca4-894e-db77e160355e''"
    by (simp add: world_def)
  ultimately show ?thesis
    unfolding eq1 eq2 by (simp add: comp_def)
qed

lemma getKeyPairFromHandle_events:
  "fetched (fst (getKeyPairFromHandle e fed url0 handle)) = []
   \<and> enqueued (fst (getKeyPairFromHandle e fed url0 handle)) = []"
  by (simp add: getKeyPairFromHandle_def split: option.splits sum.splits)

text \<open>
  Claim C6, as the code has it. With an activity that has no actor, a delivery by
  \<open>sendActivity\<close> of send.ts and a call of \<open>Federation.sendActivity\<close> fail with the
  \<open>TypeError\<close> before anything else happens: the registry is unchanged (the queue is not
  started), and the only event is the log line. \<open>Context.sendActivity\<close> does the same
  when the sender is given as a key pair. When the sender is given as a handle, the key
  pair is resolved first: if that fails the call fails with the error of the resolution,
  otherwise with the \<open>TypeError\<close>; either way nothing is put on the network and nothing is
  enqueued.
\<close>

theorem sendActivity_requires_actor:
  assumes "actorId act = None"
  shows "sendActivity e act privKey kid inbox_url loader
           = ([], Inl (TypeError ''The activity to send must have at least one actor property.''))
         \<and> Federation_sendActivity e fed kid privKey rcpts act opts
           = (fed, [Log Err ''Activity {activityId} to send does not have an actor.''],
              Inl (TypeError ''The activity to send must have at least one actor property.''))
         \<and> Context_sendActivity e fed url0 (SenderKey kid privKey) rcpts act opts
           = (fed, [Log Err ''Activity {activityId} to send does not have an actor.''],
              Inl (TypeError ''The activity to send must have at least one actor property.''))
         \<and> (case Context_sendActivity e fed url0 (SenderHandle handle) rcpts act opts of
               (fed1, evs, r) \<Rightarrow>
                 fed1 = fed \<and> fetched evs = [] \<and> enqueued evs = []
                 \<and> r = (case snd (getKeyPairFromHandle e fed url0 handle) of
                          Inl err \<Rightarrow> Inl err
                        | Inr pair \<Rightarrow>
                            Inl (TypeError
                              ''The activity to send must have at least one actor property.'')))"
proof -
  have s: "sendActivity e act privKey kid inbox_url loader
             = ([], Inl (TypeError ''The activity to send must have at least one actor property.''))"
    by (simp add: sendActivity_def assms)
  have f: "Federation_sendActivity e fed k p rcpts act opts
             = (fed, [Log Err ''Activity {activityId} to send does not have an actor.''],
                Inl (TypeError ''The activity to send must have at least one actor property.''))"
    for k p
    by (simp add: Federation_sendActivity_def assms)
  have c: "Context_sendActivity e fed url0 (SenderKey kid privKey) rcpts act opts
             = (fed, [Log Err ''Activity {activityId} to send does not have an actor.''],
                Inl (TypeError ''The activity to send must have at least one actor property.''))"
    by (simp add: Context_sendActivity_def f)
  obtain evs0 r0 where g: "getKeyPairFromHandle e fed url0 handle = (evs0, r0)"
    by (cases "getKeyPairFromHandle e fed url0 handle") auto
  have ev: "fetched evs0 = []" "enqueued evs0 = []"
    using getKeyPairFromHandle_events [of e fed url0 handle] g by simp_all
  have h: "case Context_sendActivity e fed url0 (SenderHandle handle) rcpts act opts of
             (fed1, evs, r) \<Rightarrow>
               fed1 = fed \<and> fetched evs = [] \<and> enqueued evs = []
               \<and> r = (case snd (getKeyPairFromHandle e fed url0 handle) of
                        Inl err \<Rightarrow> Inl err
                      | Inr pair \<Rightarrow>
                          Inl (TypeError
                            ''The activity to send must have at least one actor property.''))"
    using ev by (cases r0) (auto simp: Context_sendActivity_def g f fetched_append enqueued_append)
  from s f c h show ?thesis by simp
qed

theorem sendActivity_requires_actor_witness:
  "Federation_sendActivity world example_federation example_key_id (CryptoKey 1)
     (Several [alice, bob]) (example_activity\<lparr>actorId := None\<rparr>) example_options
     = (example_federation, [Log Err ''Activity {activityId} to send does not have an actor.''],
        Inl (TypeError ''The activity to send must have at least one actor property.''))
   \<and> sendActivity world (example_activity\<lparr>actorId := None\<rparr>) (CryptoKey 1) example_key_id
       example_shared_inbox (DocumentLoader 1)
     = ([], Inl (TypeError ''The activity to send must have at least one actor property.''))"
  using sendActivity_requires_actor
    [of "example_activity\<lparr>actorId := None\<rparr>" world "CryptoKey 1" example_key_id
        example_shared_inbox "DocumentLoader 1" example_federation "Several [alice, bob]"
        example_options example_base "''handle''"]
  by simp

text \<open>
  The claim as stated fails at the context level: on a registry without a key pair
  dispatcher, sending an actor-less activity for a sender given by handle fails with a
  plain \<open>Error\<close>, not with a \<open>TypeError\<close>.
\<close>

theorem Context_sendActivity_no_actor_plain_error:
  "actorId (example_activity\<lparr>actorId := None\<rparr>) = None
   \<and> Context_sendActivity world example_federation example_base (SenderHandle ''handle'')
       (Several []) (example_activity\<lparr>actorId := None\<rparr>)
       \<lparr>preferSharedInbox' = None, immediate = None\<rparr>
     = (example_federation, [], Inl (Error ''No actor key pair dispatcher registered.''))"
  by (simp add: Context_sendActivity_def getKeyPairFromHandle_def example_federation_eq)


section \<open>Properties of the router\<close>

lemma distinct_variables: "distinct (variables t)"
  by (induction t rule: variables.induct) (simp_all add: distinct_removeAll)

lemma variables_only_handle:
  "length (variables t) \<noteq> 1 \<or> ''handle'' \<notin> set (variables t) \<longleftrightarrow> set (variables t) \<noteq> {''handle''}"
proof (cases "variables t")
  case Nil
  then show ?thesis by simp
next
  case (Cons v vs)
  show ?thesis
  proof (cases vs)
    case Nil
    with Cons show ?thesis by auto
  next
    case (Cons w ws)
    have "v \<noteq> w" using distinct_variables [of t] \<open>variables t = v # vs\<close> Cons by auto
    then have "set (variables t) \<noteq> {''handle''}"
      using \<open>variables t = v # vs\<close> Cons by auto
    then show ?thesis using \<open>variables t = v # vs\<close> Cons by simp
  qed
qed

lemma Router_add_error: "Router_add r template name = Inl err \<Longrightarrow> \<exists>m. err = RouterError m"
  by (auto simp: Router_add_def split: option.splits if_splits)

lemma Router_add_ok:
  "Router_add r template name = Inr (vars, r1) \<Longrightarrow>
   (\<exists>t. parse_template False [] template = Some t \<and> vars = variables t
        \<and> r1 = r\<lparr>routes := routes r @ [(name, t)]\<rparr>)
   \<and> \<not> Router_has r name"
  by (auto simp: Router_add_def split: option.splits if_splits)

lemma Router_add_fresh:
  "\<not> Router_has r name \<Longrightarrow> parse_template False [] template = Some t \<Longrightarrow>
   Router_add r template name = Inr (variables t, r\<lparr>routes := routes r @ [(name, t)]\<rparr>)"
  by (simp add: Router_add_def)

lemma Router_has_added: "Router_has (r\<lparr>routes := routes r @ [(name, t)]\<rparr>) n \<longleftrightarrow> n = name \<or> Router_has r n"
  by (auto simp: Router_has_def)


section \<open>Properties of registration\<close>

lemma setNodeInfoDispatcher_shape:
  assumes "variable_set path \<noteq> Some {}"
  shows "\<exists>m. snd (setNodeInfoDispatcher fed path cb) = Inl (RouterError m)"
proof (cases "Router_has (router fed) ''nodeInfo''")
  case True
  then show ?thesis by (simp add: setNodeInfoDispatcher_def)
next
  case False
  show ?thesis
  proof (cases "Router_add (router fed) path ''nodeInfo''")
    case (Inl err)
    then show ?thesis
      using False Router_add_error [OF Inl] by (auto simp: setNodeInfoDispatcher_def)
  next
    case (Inr p)
    obtain vars r1 where p: "p = (vars, r1)" by (cases p)
    from Router_add_ok [OF Inr [unfolded p]] assms have "vars \<noteq> []"
      by (auto simp: variable_set_def)
    then show ?thesis
      using False Inr p by (simp add: setNodeInfoDispatcher_def)
  qed
qed

lemma handle_only_check:
  assumes "variable_set path \<noteq> Some {''handle''}"
    and "Router_add r path name = Inr (vars, r1)"
  shows "length vars \<noteq> 1 \<or> ''handle'' \<notin> set vars"
proof -
  from Router_add_ok [OF assms(2)] obtain t
    where t: "parse_template False [] path = Some t" "vars = variables t" by blast
  then have "set (variables t) \<noteq> {''handle''}"
    using assms(1) by (simp add: variable_set_def)
  then show ?thesis
    using variables_only_handle [of t] t(2) by simp
qed

lemma setActorDispatcher_shape:
  assumes "variable_set path \<noteq> Some {''handle''}"
  shows "\<exists>m. snd (setActorDispatcher fed path cb) = Inl (RouterError m)"
proof (cases "Router_has (router fed) ''actor''")
  case True
  then show ?thesis by (simp add: setActorDispatcher_def)
next
  case False
  show ?thesis
  proof (cases "Router_add (router fed) path ''actor''")
    case (Inl err)
    then show ?thesis
      using False Router_add_error [OF Inl] by (auto simp: setActorDispatcher_def)
  next
    case (Inr p)
    obtain vars r1 where p: "p = (vars, r1)" by (cases p)
    from handle_only_check [OF assms Inr [unfolded p]]
    show ?thesis
      using False Inr p by (auto simp: setActorDispatcher_def)
  qed
qed

lemma setOutboxDispatcher_shape:
  assumes "variable_set path \<noteq> Some {''handle''}"
  shows "\<exists>m. snd (setOutboxDispatcher fed path cb) = Inl (RouterError m)"
proof (cases "Router_has (router fed) ''outbox''")
  case True
  then show ?thesis by (simp add: setOutboxDispatcher_def)
next
  case False
  show ?thesis
  proof (cases "Router_add (router fed) path ''outbox''")
    case (Inl err)
    then show ?thesis
      using False Router_add_error [OF Inl] by (auto simp: setOutboxDispatcher_def)
  next
    case (Inr p)
    obtain vars r1 where p: "p = (vars, r1)" by (cases p)
    from handle_only_check [OF assms Inr [unfolded p]]
    show ?thesis
      using False Inr p by (auto simp: setOutboxDispatcher_def)
  qed
qed

lemma setFollowingDispatcher_shape:
  assumes "variable_set path \<noteq> Some {''handle''}"
  shows "\<exists>m. snd (setFollowingDispatcher fed path cb) = Inl (RouterError m)"
proof (cases "Router_has (router fed) ''following''")
  case True
  then show ?thesis by (simp add: setFollowingDispatcher_def)
next
  case False
  show ?thesis
  proof (cases "Router_add (router fed) path ''following''")
    case (Inl err)
    then show ?thesis
      using False Router_add_error [OF Inl] by (auto simp: setFollowingDispatcher_def)
  next
    case (Inr p)
    obtain vars r1 where p: "p = (vars, r1)" by (cases p)
    from handle_only_check [OF assms Inr [unfolded p]]
    show ?thesis
      using False Inr p by (auto simp: setFollowingDispatcher_def)
  qed
qed

lemma setFollowersDispatcher_shape:
  assumes "variable_set path \<noteq> Some {''handle''}"
  shows "\<exists>m. snd (setFollowersDispatcher fed path cb) = Inl (RouterError m)"
proof (cases "Router_has (router fed) ''followers''")
  case True
  then show ?thesis by (simp add: setFollowersDispatcher_def)
next
  case False
  show ?thesis
  proof (cases "Router_add (router fed) path ''followers''")
    case (Inl err)
    then show ?thesis
      using False Router_add_error [OF Inl] by (auto simp: setFollowersDispatcher_def)
  next
    case (Inr p)
    obtain vars r1 where p: "p = (vars, r1)" by (cases p)
    from handle_only_check [OF assms Inr [unfolded p]]
    show ?thesis
      using False Inr p by (auto simp: setFollowersDispatcher_def)
  qed
qed

lemma setObjectDispatcher_shape:
  assumes "variable_set path = None \<or> variable_set path = Some {}"
  shows "\<exists>m. snd (setObjectDispatcher fed cls cls_name path cb) = Inl (RouterError m)"
proof (cases "Router_has (router fed) (''object:'' @ cls)")
  case True
  then show ?thesis by (simp add: setObjectDispatcher_def)
next
  case False
  show ?thesis
  proof (cases "Router_add (router fed) path (''object:'' @ cls)")
    case (Inl err)
    then show ?thesis
      using False Router_add_error [OF Inl] by (auto simp: setObjectDispatcher_def)
  next
    case (Inr p)
    obtain vars r1 where p: "p = (vars, r1)" by (cases p)
    from Router_add_ok [OF Inr [unfolded p]] assms have "vars = []"
      by (auto simp: variable_set_def)
    then show ?thesis
      using False Inr p by (simp add: setObjectDispatcher_def)
  qed
qed

lemma setInboxListeners_shape:
  assumes "variable_set inboxPath \<noteq> Some {''handle''}
           \<or> (\<exists>sharedPath. sharedInboxPath = Some sharedPath \<and> variable_set sharedPath \<noteq> Some {})"
  shows "\<exists>m. snd (setInboxListeners fed inboxPath sharedInboxPath) = Inl (RouterError m)"
proof (cases "Router_has (router fed) ''inbox''")
  case True
  then show ?thesis by (simp add: setInboxListeners_def)
next
  case False
  show ?thesis
  proof (cases "Router_add (router fed) inboxPath ''inbox''")
    case (Inl err)
    then show ?thesis
      using False Router_add_error [OF Inl] by (auto simp: setInboxListeners_def)
  next
    case (Inr p)
    obtain vars r1 where p: "p = (vars, r1)" by (cases p)
    show ?thesis
    proof (cases "length vars \<noteq> 1 \<or> ''handle'' \<notin> set vars")
      case True
      then show ?thesis
        using False Inr p by (auto simp: setInboxListeners_def)
    next
      case ok: False
      then have "variable_set inboxPath = Some {''handle''}"
        using handle_only_check [OF _ Inr [unfolded p]] by blast
      with assms obtain sharedPath where sp: "sharedInboxPath = Some sharedPath"
        and bad: "variable_set sharedPath \<noteq> Some {}" by blast
      show ?thesis
      proof (cases "Router_add r1 sharedPath ''sharedInbox''")
        case (Inl err)
        then show ?thesis
          using False Inr p ok sp Router_add_error [OF Inl] by (auto simp: setInboxListeners_def)
      next
        case inr2: (Inr p2)
        obtain siVars r2 where p2: "p2 = (siVars, r2)" by (cases p2)
        from Router_add_ok [OF inr2 [unfolded p2]] bad have "siVars \<noteq> []"
          by (auto simp: variable_set_def)
        then show ?thesis
          using False Inr p ok sp inr2 p2 by (auto simp: setInboxListeners_def)
      qed
    qed
  qed
qed

text \<open>
  Claim C7. Whatever the registry holds, a registration whose template does not have
  the variable set its surface requires ends in a \<open>RouterError\<close>: no variables for the
  NodeInfo path and the shared inbox path, exactly \<open>handle\<close> for the actor, outbox,
  following, followers and personal inbox paths, at least one variable for an object
  path. A malformed template has no variable set and is refused as well.
\<close>

theorem registration_checks_variables:
  "(variable_set path \<noteq> Some {} \<longrightarrow>
      (\<exists>m. snd (setNodeInfoDispatcher fed path cb) = Inl (RouterError m)))
   \<and> (variable_set path \<noteq> Some {''handle''} \<longrightarrow>
      (\<exists>m. snd (setActorDispatcher fed path cb) = Inl (RouterError m))
      \<and> (\<exists>m. snd (setOutboxDispatcher fed path cb) = Inl (RouterError m))
      \<and> (\<exists>m. snd (setFollowingDispatcher fed path cb) = Inl (RouterError m))
      \<and> (\<exists>m. snd (setFollowersDispatcher fed path cb) = Inl (RouterError m))
      \<and> (\<exists>m. snd (setInboxListeners fed path sharedInboxPath) = Inl (RouterError m)))
   \<and> (variable_set path = None \<or> variable_set path = Some {} \<longrightarrow>
      (\<exists>m. snd (setObjectDispatcher fed cls cls_name path cb) = Inl (RouterError m)))
   \<and> (variable_set sharedPath \<noteq> Some {} \<longrightarrow>
      (\<exists>m. snd (setInboxListeners fed inboxPath (Some sharedPath)) = Inl (RouterError m)))"
  using setNodeInfoDispatcher_shape [of path fed cb]
    setActorDispatcher_shape [of path fed cb]
    setOutboxDispatcher_shape [of path fed cb]
    setFollowingDispatcher_shape [of path fed cb]
    setFollowersDispatcher_shape [of path fed cb]
    setObjectDispatcher_shape [of path fed cls cls_name cb]
    setInboxListeners_shape [of path sharedInboxPath fed]
    setInboxListeners_shape [of inboxPath "Some sharedPath" fed]
  by blast

theorem registration_checks_variables_witness:
  "variable_set ''/users'' \<noteq> Some {''handle''}
   \<and> (\<exists>m. snd (setActorDispatcher example_federation ''/users'' (Callback 1))
            = Inl (RouterError m))
   \<and> variable_set ''/nodeinfo/{version}'' \<noteq> Some {}
   \<and> (\<exists>m. snd (setNodeInfoDispatcher example_federation ''/nodeinfo/{version}'' (Callback 2))
            = Inl (RouterError m))"
proof -
  have a: "variable_set ''/users'' \<noteq> Some {''handle''}"
    by (simp add: variable_set_def lit_def)
  have n: "variable_set ''/nodeinfo/{version}'' \<noteq> Some {}"
    by (simp add: variable_set_def lit_def)
  show ?thesis
    using a n
      registration_checks_variables [of "''/users''" example_federation "Callback 1"]
      registration_checks_variables [of "''/nodeinfo/{version}''" example_federation "Callback 2"]
    by blast
qed

section \<open>Properties of the URL builders\<close>






section \<open>Registration that fails after the route was added\<close>

lemma map_of_added:
  "\<not> Router_has r name \<Longrightarrow> map_of (routes r @ [(name, t)]) name = Some t"
proof -
  assume "\<not> Router_has r name"
  then have "map_of (routes r) name = None"
    by (simp add: Router_has_def map_of_eq_None_iff)
  then show ?thesis by (simp add: map_add_def)
qed

lemma Router_build_added:
  "\<not> Router_has r name \<Longrightarrow>
   Router_build (r\<lparr>routes := routes r @ [(name, t)]\<rparr>) name vals = expand t vals"
  by (simp add: Router_build_def map_of_added del: map_of_append)

lemma setActorDispatcher_rejected:
  assumes "\<not> Router_has (router fed) ''actor''"
    and "parse_template False [] path = Some t"
    and "set (variables t) \<noteq> {''handle''}"
  shows "setActorDispatcher fed path cb
           = (fed\<lparr>router := (router fed)\<lparr>routes := routes (router fed) @ [(''actor'', t)]\<rparr>\<rparr>,
              Inl (RouterError ''Path for actor dispatcher must have one variable: {handle}''))"
  using assms variables_only_handle [of t]
  by (simp add: setActorDispatcher_def Router_add_fresh)

lemma setOutboxDispatcher_rejected:
  assumes "\<not> Router_has (router fed) ''outbox''"
    and "parse_template False [] path = Some t"
    and "set (variables t) \<noteq> {''handle''}"
  shows "setOutboxDispatcher fed path cb
           = (fed\<lparr>router := (router fed)\<lparr>routes := routes (router fed) @ [(''outbox'', t)]\<rparr>\<rparr>,
              Inl (RouterError ''Path for outbox dispatcher must have one variable: {handle}''))"
  using assms variables_only_handle [of t]
  by (simp add: setOutboxDispatcher_def Router_add_fresh)

lemma setFollowingDispatcher_rejected:
  assumes "\<not> Router_has (router fed) ''following''"
    and "parse_template False [] path = Some t"
    and "set (variables t) \<noteq> {''handle''}"
  shows "setFollowingDispatcher fed path cb
           = (fed\<lparr>router := (router fed)\<lparr>routes := routes (router fed) @ [(''following'', t)]\<rparr>\<rparr>,
              Inl (RouterError
                ''Path for following collection dispatcher must have one variable: {handle}''))"
  using assms variables_only_handle [of t]
  by (simp add: setFollowingDispatcher_def Router_add_fresh)

lemma setFollowersDispatcher_rejected:
  assumes "\<not> Router_has (router fed) ''followers''"
    and "parse_template False [] path = Some t"
    and "set (variables t) \<noteq> {''handle''}"
  shows "setFollowersDispatcher fed path cb
           = (fed\<lparr>router := (router fed)\<lparr>routes := routes (router fed) @ [(''followers'', t)]\<rparr>\<rparr>,
              Inl (RouterError
                ''Path for followers collection dispatcher must have one variable: {handle}''))"
  using assms variables_only_handle [of t]
  by (simp add: setFollowersDispatcher_def Router_add_fresh)

lemma setNodeInfoDispatcher_rejected:
  assumes "\<not> Router_has (router fed) ''nodeInfo''"
    and "parse_template False [] path = Some t"
    and "variables t \<noteq> []"
  shows "setNodeInfoDispatcher fed path cb
           = (fed\<lparr>router := (router fed)\<lparr>routes := routes (router fed) @ [(''nodeInfo'', t)]\<rparr>\<rparr>,
              Inl (RouterError ''Path for NodeInfo dispatcher must have no variables.''))"
  using assms by (simp add: setNodeInfoDispatcher_def Router_add_fresh)

lemma setObjectDispatcher_rejected:
  assumes "\<not> Router_has (router fed) (''object:'' @ cls)"
    and "parse_template False [] path = Some t"
    and "variables t = []"
  shows "setObjectDispatcher fed cls cls_name path cb
           = (fed\<lparr>router := (router fed)\<lparr>routes := routes (router fed)
                                                     @ [(''object:'' @ cls, t)]\<rparr>\<rparr>,
              Inl (RouterError ''Path for object dispatcher must have at least one variable.''))"
  using assms by (simp add: setObjectDispatcher_def Router_add_fresh Let_def)

text \<open>
  Claim C10, as the code and the router of the spec have it. When a registration finds
  the route name free and the template well-formed but with the wrong variable set, it
  throws its \<open>RouterError\<close> after the route was added: the registry it leaves behind has
  the route and stores no callbacks, and any later registration of the same surface,
  correct or not, fails as already set. For the actor, outbox, following and followers
  surfaces the URL builder then returns what the URL parser makes of the built path
  whenever the router can build the route from the handle (as for a template without
  variables), instead of raising its \<open>RouterError\<close>. For the object surface
  \<open>getObjectUri\<close> keeps raising \<open>RouterError("No object dispatcher registered.")\<close> as
  long as no callbacks are stored for the class.
\<close>

theorem registration_not_atomic:
  "(\<not> Router_has (router fed) ''actor'' \<and> parse_template False [] path = Some t
      \<and> set (variables t) \<noteq> {''handle''} \<longrightarrow>
      (case setActorDispatcher fed path cb of
         (fed1, r) \<Rightarrow>
           r = Inl (RouterError ''Path for actor dispatcher must have one variable: {handle}'')
           \<and> routes (router fed1) = routes (router fed) @ [(''actor'', t)]
           \<and> actorCallbacks fed1 = actorCallbacks fed
           \<and> setActorDispatcher fed1 path2 cb2
               = (fed1, Inl (RouterError ''Actor dispatcher already set.''))
           \<and> (\<forall>p. expand t [(''handle'', handle)] = Some p \<longrightarrow>
                  getActorUri e fed1 url0 handle = new_URL e p url0)))
   \<and> (\<not> Router_has (router fed) ''outbox'' \<and> parse_template False [] path = Some t
      \<and> set (variables t) \<noteq> {''handle''} \<longrightarrow>
      (case setOutboxDispatcher fed path cb of
         (fed1, r) \<Rightarrow>
           r = Inl (RouterError ''Path for outbox dispatcher must have one variable: {handle}'')
           \<and> routes (router fed1) = routes (router fed) @ [(''outbox'', t)]
           \<and> outboxCallbacks fed1 = outboxCallbacks fed
           \<and> setOutboxDispatcher fed1 path2 cb2
               = (fed1, Inl (RouterError ''Outbox dispatcher already set.''))
           \<and> (\<forall>p. expand t [(''handle'', handle)] = Some p \<longrightarrow>
                  getOutboxUri e fed1 url0 handle = new_URL e p url0)))
   \<and> (\<not> Router_has (router fed) ''following'' \<and> parse_template False [] path = Some t
      \<and> set (variables t) \<noteq> {''handle''} \<longrightarrow>
      (case setFollowingDispatcher fed path cb of
         (fed1, r) \<Rightarrow>
           r = Inl (RouterError
                 ''Path for following collection dispatcher must have one variable: {handle}'')
           \<and> routes (router fed1) = routes (router fed) @ [(''following'', t)]
           \<and> followingCallbacks fed1 = followingCallbacks fed
           \<and> setFollowingDispatcher fed1 path2 cb2
               = (fed1, Inl (RouterError ''Following collection dispatcher already set.''))
           \<and> (\<forall>p. expand t [(''handle'', handle)] = Some p \<longrightarrow>
                  getFollowingUri e fed1 url0 handle = new_URL e p url0)))
   \<and> (\<not> Router_has (router fed) ''followers'' \<and> parse_template False [] path = Some t
      \<and> set (variables t) \<noteq> {''handle''} \<longrightarrow>
      (case setFollowersDispatcher fed path cb of
         (fed1, r) \<Rightarrow>
           r = Inl (RouterError
                 ''Path for followers collection dispatcher must have one variable: {handle}'')
           \<and> routes (router fed1) = routes (router fed) @ [(''followers'', t)]
           \<and> followersCallbacks fed1 = followersCallbacks fed
           \<and> setFollowersDispatcher fed1 path2 cb2
               = (fed1, Inl (RouterError ''Followers collection dispatcher already set.''))
           \<and> (\<forall>p. expand t [(''handle'', handle)] = Some p \<longrightarrow>
                  getFollowersUri e fed1 url0 handle = new_URL e p url0)))
   \<and> (\<not> Router_has (router fed) ''nodeInfo'' \<and> parse_template False [] path = Some t
      \<and> variables t \<noteq> [] \<longrightarrow>
      (case setNodeInfoDispatcher fed path cb of
         (fed1, r) \<Rightarrow>
           r = Inl (RouterError ''Path for NodeInfo dispatcher must have no variables.'')
           \<and> routes (router fed1) = routes (router fed) @ [(''nodeInfo'', t)]
           \<and> nodeInfoDispatcher fed1 = nodeInfoDispatcher fed
           \<and> setNodeInfoDispatcher fed1 path2 cb2
               = (fed1, Inl (RouterError ''NodeInfo dispatcher already set.''))))
   \<and> (\<not> Router_has (router fed) (''object:'' @ cls) \<and> parse_template False [] path = Some t
      \<and> variables t = [] \<longrightarrow>
      (case setObjectDispatcher fed cls cls_name path cb of
         (fed1, r) \<Rightarrow>
           r = Inl (RouterError ''Path for object dispatcher must have at least one variable.'')
           \<and> routes (router fed1) = routes (router fed) @ [(''object:'' @ cls, t)]
           \<and> objectCallbacks fed1 = objectCallbacks fed
           \<and> setObjectDispatcher fed1 cls cls_name path2 cb2
               = (fed1, Inl (RouterError (''Object dispatcher for '' @ cls_name @ '' already set.'')))
           \<and> (objectCallbacks fed cls = None \<longrightarrow>
                  getObjectUri e fed1 url0 cls vals
                    = Inl (RouterError ''No object dispatcher registered.''))))"
proof (intro conjI impI)
  assume a: "\<not> Router_has (router fed) ''actor'' \<and> parse_template False [] path = Some t
             \<and> set (variables t) \<noteq> {''handle''}"
  then have "\<not> Router_has (router fed) ''actor''" by simp
  then show "case setActorDispatcher fed path cb of
         (fed1, r) \<Rightarrow>
           r = Inl (RouterError ''Path for actor dispatcher must have one variable: {handle}'')
           \<and> routes (router fed1) = routes (router fed) @ [(''actor'', t)]
           \<and> actorCallbacks fed1 = actorCallbacks fed
           \<and> setActorDispatcher fed1 path2 cb2
               = (fed1, Inl (RouterError ''Actor dispatcher already set.''))
           \<and> (\<forall>p. expand t [(''handle'', handle)] = Some p \<longrightarrow>
                  getActorUri e fed1 url0 handle = new_URL e p url0)"
    using a
    by (simp add: setActorDispatcher_rejected getActorUri_def Router_build_added)
      (simp add: setActorDispatcher_def Router_has_added)
next
  assume a: "\<not> Router_has (router fed) ''outbox'' \<and> parse_template False [] path = Some t
             \<and> set (variables t) \<noteq> {''handle''}"
  then have "\<not> Router_has (router fed) ''outbox''" by simp
  then show "case setOutboxDispatcher fed path cb of
         (fed1, r) \<Rightarrow>
           r = Inl (RouterError ''Path for outbox dispatcher must have one variable: {handle}'')
           \<and> routes (router fed1) = routes (router fed) @ [(''outbox'', t)]
           \<and> outboxCallbacks fed1 = outboxCallbacks fed
           \<and> setOutboxDispatcher fed1 path2 cb2
               = (fed1, Inl (RouterError ''Outbox dispatcher already set.''))
           \<and> (\<forall>p. expand t [(''handle'', handle)] = Some p \<longrightarrow>
                  getOutboxUri e fed1 url0 handle = new_URL e p url0)"
    using a
    by (simp add: setOutboxDispatcher_rejected getOutboxUri_def Router_build_added)
      (simp add: setOutboxDispatcher_def Router_has_added)
next
  assume a: "\<not> Router_has (router fed) ''following'' \<and> parse_template False [] path = Some t
             \<and> set (variables t) \<noteq> {''handle''}"
  then have "\<not> Router_has (router fed) ''following''" by simp
  then show "case setFollowingDispatcher fed path cb of
         (fed1, r) \<Rightarrow>
           r = Inl (RouterError
                 ''Path for following collection dispatcher must have one variable: {handle}'')
           \<and> routes (router fed1) = routes (router fed) @ [(''following'', t)]
           \<and> followingCallbacks fed1 = followingCallbacks fed
           \<and> setFollowingDispatcher fed1 path2 cb2
               = (fed1, Inl (RouterError ''Following collection dispatcher already set.''))
           \<and> (\<forall>p. expand t [(''handle'', handle)] = Some p \<longrightarrow>
                  getFollowingUri e fed1 url0 handle = new_URL e p url0)"
    using a
    by (simp add: setFollowingDispatcher_rejected getFollowingUri_def Router_build_added)
      (simp add: setFollowingDispatcher_def Router_has_added)
next
  assume a: "\<not> Router_has (router fed) ''followers'' \<and> parse_template False [] path = Some t
             \<and> set (variables t) \<noteq> {''handle''}"
  then have "\<not> Router_has (router fed) ''followers''" by simp
  then show "case setFollowersDispatcher fed path cb of
         (fed1, r) \<Rightarrow>
           r = Inl (RouterError
                 ''Path for followers collection dispatcher must have one variable: {handle}'')
           \<and> routes (router fed1) = routes (router fed) @ [(''followers'', t)]
           \<and> followersCallbacks fed1 = followersCallbacks fed
           \<and> setFollowersDispatcher fed1 path2 cb2
               = (fed1, Inl (RouterError ''Followers collection dispatcher already set.''))
           \<and> (\<forall>p. expand t [(''handle'', handle)] = Some p \<longrightarrow>
                  getFollowersUri e fed1 url0 handle = new_URL e p url0)"
    using a
    by (simp add: setFollowersDispatcher_rejected getFollowersUri_def Router_build_added)
      (simp add: setFollowersDispatcher_def Router_has_added)
next
  assume a: "\<not> Router_has (router fed) ''nodeInfo'' \<and> parse_template False [] path = Some t
             \<and> variables t \<noteq> []"
  then show "case setNodeInfoDispatcher fed path cb of
         (fed1, r) \<Rightarrow>
           r = Inl (RouterError ''Path for NodeInfo dispatcher must have no variables.'')
           \<and> routes (router fed1) = routes (router fed) @ [(''nodeInfo'', t)]
           \<and> nodeInfoDispatcher fed1 = nodeInfoDispatcher fed
           \<and> setNodeInfoDispatcher fed1 path2 cb2
               = (fed1, Inl (RouterError ''NodeInfo dispatcher already set.''))"
    by (simp add: setNodeInfoDispatcher_rejected)
      (simp add: setNodeInfoDispatcher_def Router_has_added)
next
  assume a: "\<not> Router_has (router fed) (''object:'' @ cls) \<and> parse_template False [] path = Some t
             \<and> variables t = []"
  then show "case setObjectDispatcher fed cls cls_name path cb of
         (fed1, r) \<Rightarrow>
           r = Inl (RouterError ''Path for object dispatcher must have at least one variable.'')
           \<and> routes (router fed1) = routes (router fed) @ [(''object:'' @ cls, t)]
           \<and> objectCallbacks fed1 = objectCallbacks fed
           \<and> setObjectDispatcher fed1 cls cls_name path2 cb2
               = (fed1, Inl (RouterError (''Object dispatcher for '' @ cls_name @ '' already set.'')))
           \<and> (objectCallbacks fed cls = None \<longrightarrow>
                  getObjectUri e fed1 url0 cls vals
                    = Inl (RouterError ''No object dispatcher registered.''))"
    by (simp add: setObjectDispatcher_rejected getObjectUri_def)
      (simp add: setObjectDispatcher_def Router_has_added Let_def)
qed

theorem registration_not_atomic_witness:
  "snd (setActorDispatcher example_federation ''/users'' (Callback 1))
     = Inl (RouterError ''Path for actor dispatcher must have one variable: {handle}'')
   \<and> Router_has (router (fst (setActorDispatcher example_federation ''/users'' (Callback 1))))
       ''actor''
   \<and> actorCallbacks (fst (setActorDispatcher example_federation ''/users'' (Callback 1))) = None
   \<and> snd (setActorDispatcher (fst (setActorDispatcher example_federation ''/users'' (Callback 1)))
            ''/users/{handle}'' (Callback 1))
     = Inl (RouterError ''Actor dispatcher already set.'')
   \<and> getActorUri world (fst (setActorDispatcher example_federation ''/users'' (Callback 1)))
       example_base ''x''
     = Inr (example_base\<lparr>pathname := ''/users''\<rparr>)"
proof -
  have free: "\<not> Router_has (router example_federation) ''actor''"
    by (simp add: example_federation_eq Router_has_def)
  have parsed: "parse_template False [] ''/users'' = Some [Lit ''/users'']"
    by (simp add: lit_def)
  have wrong: "set (variables [Lit ''/users'']) \<noteq> {''handle''}"
    by simp
  have built: "expand [Lit ''/users''] [(''handle'', ''x'')] = Some ''/users''"
    by simp
  have parsed_url: "new_URL world ''/users'' example_base = Inr (example_base\<lparr>pathname := ''/users''\<rparr>)"
    by (simp add: new_URL_def example_base_def special_scheme_def plain_absolute_path_def
        path_char_def normalize_path_def single_dot_def double_dot_def)
  obtain fed1 r where s: "setActorDispatcher example_federation ''/users'' (Callback 1) = (fed1, r)"
    by (cases "setActorDispatcher example_federation ''/users'' (Callback 1)") auto
  have "case setActorDispatcher example_federation ''/users'' (Callback 1) of
          (fed1, r) \<Rightarrow>
            r = Inl (RouterError ''Path for actor dispatcher must have one variable: {handle}'')
            \<and> routes (router fed1)
                = routes (router example_federation) @ [(''actor'', [Lit ''/users''])]
            \<and> actorCallbacks fed1 = actorCallbacks example_federation
            \<and> setActorDispatcher fed1 ''/users/{handle}'' (Callback 1)
                = (fed1, Inl (RouterError ''Actor dispatcher already set.''))
            \<and> (\<forall>p. expand [Lit ''/users''] [(''handle'', ''x'')] = Some p \<longrightarrow>
                   getActorUri world fed1 example_base ''x'' = new_URL world p example_base)"
    using free parsed wrong
    by (intro registration_not_atomic
        [where fed = example_federation and path = "''/users''" and t = "[Lit ''/users'']"
           and cb = "Callback 1" and ?path2.0 = "''/users/{handle}''" and ?cb2.0 = "Callback 1"
           and handle = "''x''" and e = world and ?url0.0 = example_base,
         THEN conjunct1, THEN mp] conjI)
  then have "r = Inl (RouterError ''Path for actor dispatcher must have one variable: {handle}'')"
    and "routes (router fed1) = routes (router example_federation) @ [(''actor'', [Lit ''/users''])]"
    and "actorCallbacks fed1 = actorCallbacks example_federation"
    and "setActorDispatcher fed1 ''/users/{handle}'' (Callback 1)
           = (fed1, Inl (RouterError ''Actor dispatcher already set.''))"
    and "getActorUri world fed1 example_base ''x'' = new_URL world ''/users'' example_base"
    unfolding s using built by simp_all
  moreover have "actorCallbacks example_federation = None"
    by (simp add: example_federation_eq)
  ultimately show ?thesis
    unfolding s using parsed_url by (simp add: Router_has_def)
qed

text \<open>
  The claim as stated fails for the object surface: after the rejected registration of
  a template without variables the route is there, and \<open>getObjectUri\<close> still raises a
  \<open>RouterError\<close>.
\<close>

theorem getObjectUri_still_raises_after_rejected_registration:
  "snd (setObjectDispatcher example_federation Note_typeId ''Note'' ''/notes'' (Callback 3))
     = Inl (RouterError ''Path for object dispatcher must have at least one variable.'')
   \<and> Router_has
        (router (fst (setObjectDispatcher example_federation Note_typeId ''Note'' ''/notes''
                        (Callback 3))))
        (''object:'' @ Note_typeId)
   \<and> getObjectUri world
        (fst (setObjectDispatcher example_federation Note_typeId ''Note'' ''/notes'' (Callback 3)))
        example_base Note_typeId []
     = Inl (RouterError ''No object dispatcher registered.'')"
  by (simp add: setObjectDispatcher_def getObjectUri_def Router_add_def Router_has_def lit_def
      example_federation_eq Note_typeId_def Let_def)


section \<open>Actor URIs and handles\<close>

text \<open>Decoding undoes the encoding of \<open>build\<close>, and an encoded value has no slash.\<close>

lemma below_16:
  "(m::nat) < 16 \<Longrightarrow> m \<in> set [0, 1, 2, 3, 4, 5, 6, 7, 8, 9, 10, 11, 12, 13, 14, 15]"
proof -
  assume "m < 16"
  then have "m \<in> set [0..<16]" by simp
  moreover have "[0..<16] = [0, 1, 2, 3, 4, 5, 6, 7, 8, 9, 10, 11, 12, 13, 14, 15::nat]"
    by (simp add: upt_rec)
  ultimately show ?thesis by simp
qed

lemma hex_value_nth: "m < 16 \<Longrightarrow> hex_value (''0123456789ABCDEF'' ! m) = Some m"
proof -
  assume "m < 16"
  then have "m \<in> set [0, 1, 2, 3, 4, 5, 6, 7, 8, 9, 10, 11, 12, 13, 14, 15]"
    by (rule below_16)
  then consider "m = 0" | "m = 1" | "m = 2" | "m = 3" | "m = 4" | "m = 5" | "m = 6" | "m = 7"
    | "m = 8" | "m = 9" | "m = 10" | "m = 11" | "m = 12" | "m = 13" | "m = 14" | "m = 15"
    by auto
  then show ?thesis
    by cases (simp_all add: hex_value_def)
qed

lemma hex_value_hex_digit: "hex_value (hex_digit n) = Some (n mod 16)"
  by (simp add: hex_digit_def hex_value_nth)

lemma hex_digit_not_slash: "hex_digit n \<noteq> CHR ''/''"
proof -
  have "hex_value (hex_digit n) \<noteq> hex_value CHR ''/''"
    by (simp add: hex_value_hex_digit) (simp add: hex_value_def)
  then show ?thesis by auto
qed

lemma pct_decode_Cons: "c \<noteq> CHR ''%'' \<Longrightarrow> pct_decode (c # s) = c # pct_decode s"
proof (cases s)
  case Nil
  then show ?thesis by simp
next
  case (Cons h t)
  assume "c \<noteq> CHR ''%''"
  then show ?thesis unfolding Cons by (cases t) simp_all
qed

lemma pct_decode_escape:
  "pct_decode (CHR ''%'' # hex_digit (of_char c div 16) # hex_digit (of_char c) # s)
     = c # pct_decode s"
proof -
  have "(of_char c :: nat) < 256" by simp
  then have "(of_char c :: nat) div 16 < 16" by arith
  then have "(of_char c :: nat) div 16 mod 16 = of_char c div 16" by simp
  then have "16 * ((of_char c :: nat) div 16 mod 16) + of_char c mod 16 = of_char c"
    by simp
  then show ?thesis by (simp add: hex_value_hex_digit)
qed

lemma unreserved_plain: "unreserved c \<Longrightarrow> c \<noteq> CHR ''%'' \<and> c \<noteq> CHR ''/''"
  by (auto simp: unreserved_def)

lemma pct_decode_encode_append: "pct_decode (pct_encode h @ s) = h @ pct_decode s"
proof (induction h)
  case Nil
  then show ?case by (simp add: pct_encode_def)
next
  case (Cons c cs)
  show ?case
  proof (cases "unreserved c")
    case True
    then have "pct_encode (c # cs) @ s = c # (pct_encode cs @ s)"
      by (simp add: pct_encode_def pct_encode_char_def)
    then show ?thesis
      using unreserved_plain [OF True] Cons.IH by (simp add: pct_decode_Cons)
  next
    case False
    then have "pct_encode (c # cs) @ s
                 = CHR ''%'' # hex_digit (of_char c div 16) # hex_digit (of_char c)
                     # (pct_encode cs @ s)"
      by (simp add: pct_encode_def pct_encode_char_def)
    then show ?thesis
      using Cons.IH by (simp only: pct_decode_escape append_Cons)
  qed
qed

lemma pct_decode_encode: "pct_decode (pct_encode h) = h"
  using pct_decode_encode_append [of h "[]"] by simp

lemma pct_encode_char_no_slash: "CHR ''/'' \<notin> set (pct_encode_char c)"
  using unreserved_plain [of c] hex_digit_not_slash [of "of_char c div 16"]
    hex_digit_not_slash [of "of_char c"]
  by (auto simp: pct_encode_char_def)

lemma pct_encode_no_slash: "CHR ''/'' \<notin> set (pct_encode h)"
  using pct_encode_char_no_slash by (simp add: pct_encode_def)

lemma expand_lit: "expand (lit s @ ps) vals = map_option ((@) s) (expand ps vals)"
  by (cases "expand ps vals") (simp_all add: lit_def)

lemma expand_handle_template:
  "expand (lit pre @ Var v # lit suf) [(v, h)] = Some (pre @ pct_encode h @ suf)"
proof -
  have "expand (lit suf) [(v, h)] = Some suf"
    using expand_lit [of suf "[]" "[(v, h)]"] by simp
  then show ?thesis by (simp add: expand_lit)
qed

lemma match_parts_lit: "match_parts (lit s @ ps) (s @ x) = match_parts ps x"
  by (simp add: lit_def)

lemma match_parts_lit_end: "match_parts (lit suf) s = (if s = suf then Some [] else None)"
proof (cases "suf = []")
  case True
  then show ?thesis by (simp add: lit_def)
next
  case False
  have "take (length suf) s = suf \<and> drop (length suf) s = [] \<longleftrightarrow> s = suf"
    by (metis append_take_drop_id append_Nil2 drop_all order_refl take_all)
  then show ?thesis using False by (auto simp: lit_def)
qed

lemma match_var_run:
  "CHR ''/'' \<notin> set r \<Longrightarrow>
   match_var v acc (lit suf) (r @ suf) = Some [(v, pct_decode (acc @ r))]"
proof (induction r arbitrary: acc)
  case Nil
  show ?case
    by (subst match_var.simps) (simp add: match_parts_lit_end bind_var_def or_else_def)
next
  case (Cons c cs)
  have c: "c \<noteq> CHR ''/''" using Cons.prems by auto
  have ne: "c # cs @ suf \<noteq> suf" using append_self_conv2 [of "c # cs" suf] by simp
  have "match_var v acc (lit suf) ((c # cs) @ suf) = match_var v (acc @ [c]) (lit suf) (cs @ suf)"
    by (subst match_var.simps) (simp add: match_parts_lit_end or_else_def c ne)
  also have "\<dots> = Some [(v, pct_decode ((acc @ [c]) @ cs))]"
    using Cons.prems by (intro Cons.IH) simp
  finally show ?case by simp
qed

text \<open>
  The round-trip law of the router, for a template with one variable between two
  literal runs: the path built from a value matches the template, with that value.
\<close>

lemma match_handle_template:
  "match_parts (lit pre @ Var v # lit suf) (pre @ pct_encode h @ suf) = Some [(v, h)]"
  using match_var_run [OF pct_encode_no_slash, of v "[]" suf h]
  by (simp add: match_parts_lit pct_decode_encode)

lemma candidates_set:
  "set (candidates rs path)
     = {(literal_length t, n, vals) | n t vals. (n, t) \<in> set rs \<and> match_parts t path = Some vals}"
proof (induction rs)
  case Nil
  then show ?case by simp
next
  case (Cons a rs)
  obtain n t where a: "a = (n, t)" by (cases a)
  show ?case
    using Cons.IH by (cases "match_parts t path") (auto simp: a)
qed

lemma longest_all_same:
  "cs \<noteq> [] \<Longrightarrow> \<forall>c \<in> set cs. c = x \<Longrightarrow> longest cs = Some x"
proof (induction cs)
  case Nil
  then show ?case by simp
next
  case (Cons c cs)
  show ?case
  proof (cases "cs = []")
    case True
    with Cons.prems show ?thesis by simp
  next
    case False
    then have "longest cs = Some x" using Cons by simp
    with Cons.prems show ?thesis by simp
  qed
qed

lemma Router_route_only_match:
  assumes "(name, t) \<in> set (routes r)"
    and "match_parts t path = Some vals"
    and "\<forall>(n, t') \<in> set (routes r). (n, t') = (name, t) \<or> match_parts t' path = None"
  shows "Router_route r path = Some (name, vals)"
proof -
  let ?x = "(literal_length t, name, vals)"
  have "?x \<in> set (candidates (routes r) path)"
    using assms(1,2) by (auto simp: candidates_set)
  moreover have "\<forall>c \<in> set (candidates (routes r) path). c = ?x"
    using assms(2,3) by (fastforce simp: candidates_set)
  ultimately have "longest (candidates (routes r) path) = Some ?x"
    by (intro longest_all_same) auto
  then show ?thesis by (simp add: Router_route_def)
qed

lemma split_slash_not_Nil: "split_slash q \<noteq> []"
  by (induction q) (auto split: list.splits)

lemma join_split_slash: "concat (map ((#) CHR ''/'') (split_slash q)) = CHR ''/'' # q"
proof (induction q)
  case Nil
  then show ?case by simp
next
  case (Cons c cs)
  obtain s ss where s: "split_slash cs = s # ss"
    using split_slash_not_Nil [of cs] by (cases "split_slash cs") auto
  show ?case using Cons.IH by (simp add: s)
qed

lemma path_state_no_dots:
  "list_all (\<lambda>s. \<not> single_dot s \<and> \<not> double_dot s) segs \<Longrightarrow> path_state st segs = st @ segs"
  by (induction st segs rule: path_state.induct) simp_all

lemma normalize_path_dot_free:
  assumes "dot_free p" and "p \<noteq> []" and "hd p = CHR ''/''"
  shows "normalize_path p = p"
proof -
  obtain q where p: "p = CHR ''/'' # q" using assms(2,3) by (cases p) auto
  have "path_state [] (split_slash q) = split_slash q"
    using assms(1) path_state_no_dots [of "split_slash q" "[]"] by (simp add: dot_free_def p)
  then show ?thesis by (simp add: normalize_path_def p join_split_slash)
qed

lemma new_URL_plain:
  assumes "special_scheme (protocol base)" and "plain_absolute_path p" and "dot_free p"
  shows "new_URL e p base = Inr (base\<lparr>pathname := p, search := [], hash := []\<rparr>)"
proof -
  have "p \<noteq> [] \<and> hd p = CHR ''/''"
    using assms(2) by (cases p) (simp_all add: plain_absolute_path_def)
  then have "normalize_path p = p"
    using assms(3) by (simp add: normalize_path_dot_free)
  then show ?thesis using assms(1,2) by (simp add: new_URL_def)
qed

lemma longest_member: "longest cs = Some c \<Longrightarrow> c \<in> set cs"
  by (induction cs arbitrary: c) (auto split: option.splits if_splits)

lemma Router_route_matches:
  "Router_route r path = Some (name, vals) \<Longrightarrow>
   \<exists>t. (name, t) \<in> set (routes r) \<and> match_parts t path = Some vals"
proof -
  assume "Router_route r path = Some (name, vals)"
  then obtain n where "longest (candidates (routes r) path) = Some (n, name, vals)"
    by (auto simp: Router_route_def)
  then have "(n, name, vals) \<in> set (candidates (routes r) path)"
    by (rule longest_member)
  then show ?thesis by (auto simp: candidates_set)
qed

lemma getHandleFromActorUri_none:
  "(origin e actorUri \<noteq> origin e url0 \<longrightarrow> getHandleFromActorUri e fed url0 actorUri = None)
   \<and> ((\<forall>t. (''actor'', t) \<in> set (routes (router fed)) \<longrightarrow>
             match_parts t (pathname actorUri) = None) \<longrightarrow>
        getHandleFromActorUri e fed url0 actorUri = None)"
proof -
  have "getHandleFromActorUri e fed url0 actorUri = None"
    if no: "\<forall>t. (''actor'', t) \<in> set (routes (router fed)) \<longrightarrow>
                 match_parts t (pathname actorUri) = None"
  proof (cases "Router_route (router fed) (pathname actorUri)")
    case None
    then show ?thesis by (simp add: getHandleFromActorUri_def)
  next
    case (Some nv)
    obtain name vals where nv: "nv = (name, vals)" by (cases nv)
    from Router_route_matches [OF Some [unfolded nv]] no have "name \<noteq> ''actor''"
      by auto
    then show ?thesis by (simp add: getHandleFromActorUri_def Some nv)
  qed
  then show ?thesis by (simp add: getHandleFromActorUri_def)
qed

text \<open>
  A template written as a brace-free prefix, \<open>{handle}\<close> and a brace-free suffix is read
  as just that, and registering it for the actor dispatcher on a registry that has no
  actor route succeeds and puts it in the router.
\<close>

lemma parse_template_literal:
  "CHR ''{'' \<notin> set s \<Longrightarrow> CHR ''}'' \<notin> set s \<Longrightarrow>
   parse_template False acc (s @ rest) = parse_template False (acc @ s) rest"
  by (induction s arbitrary: acc) auto

lemma parse_template_handle:
  assumes "CHR ''{'' \<notin> set pre" "CHR ''}'' \<notin> set pre"
    and "CHR ''{'' \<notin> set suf" "CHR ''}'' \<notin> set suf"
  shows "parse_template False [] (pre @ ''{handle}'' @ suf)
           = Some (lit pre @ Var ''handle'' # lit suf)"
proof -
  have "parse_template False [] (suf @ []) = parse_template False ([] @ suf) []"
    using assms(3,4) by (rule parse_template_literal)
  then have suf: "parse_template False [] suf = Some (lit suf)" by simp
  have "parse_template False [] (pre @ ''{handle}'' @ suf)
          = parse_template False ([] @ pre) (''{handle}'' @ suf)"
    using assms(1,2) by (rule parse_template_literal)
  then show ?thesis by (simp add: suf)
qed

lemma setActorDispatcher_registers:
  assumes "\<not> Router_has (router fed) ''actor''"
    and "CHR ''{'' \<notin> set pre" "CHR ''}'' \<notin> set pre"
    and "CHR ''{'' \<notin> set suf" "CHR ''}'' \<notin> set suf"
  shows "snd (setActorDispatcher fed (pre @ ''{handle}'' @ suf) cb) = Inr ()
         \<and> map_of (routes (router (fst (setActorDispatcher fed (pre @ ''{handle}'' @ suf) cb))))
               ''actor''
             = Some (lit pre @ Var ''handle'' # lit suf)"
proof -
  let ?t = "lit pre @ Var ''handle'' # lit suf"
  have v: "variables ?t = [''handle'']"
    by (simp add: lit_def)
  have "Router_add (router fed) (pre @ ''{handle}'' @ suf) ''actor''
          = Inr (variables ?t, (router fed)\<lparr>routes := routes (router fed) @ [(''actor'', ?t)]\<rparr>)"
    using assms(1) parse_template_handle [OF assms(2-5)] by (rule Router_add_fresh)
  then show ?thesis
    using assms(1) v by (simp add: setActorDispatcher_def map_of_added del: map_of_append)
qed

lemma actor_round_trip:
  assumes t: "map_of (routes (router fed)) ''actor'' = Some (lit pre @ Var ''handle'' # lit suf)"
    and only: "\<forall>(n, t) \<in> set (routes (router fed)).
                 (n, t) = (''actor'', lit pre @ Var ''handle'' # lit suf)
                 \<or> match_parts t (pre @ pct_encode handle @ suf) = None"
    and u: "special_scheme (protocol url0)" "plain_absolute_path (pre @ pct_encode handle @ suf)"
           "dot_free (pre @ pct_encode handle @ suf)"
  shows "getActorUri e fed url0 handle
           = Inr (url0\<lparr>pathname := pre @ pct_encode handle @ suf, search := [], hash := []\<rparr>)
         \<and> getHandleFromActorUri e fed url0
             (url0\<lparr>pathname := pre @ pct_encode handle @ suf, search := [], hash := []\<rparr>)
           = Some handle"
proof -
  let ?t = "lit pre @ Var ''handle'' # lit suf"
  let ?p = "pre @ pct_encode handle @ suf"
  have built: "Router_build (router fed) ''actor'' [(''handle'', handle)] = Some ?p"
    using t by (simp add: Router_build_def expand_handle_template)
  have uri: "getActorUri e fed url0 handle = Inr (url0\<lparr>pathname := ?p, search := [], hash := []\<rparr>)"
    using built new_URL_plain [OF u, of e] by (simp add: getActorUri_def)
  have m: "match_parts ?t ?p = Some [(''handle'', handle)]"
    by (rule match_handle_template)
  have "(''actor'', ?t) \<in> set (routes (router fed))"
    using t by (rule map_of_SomeD)
  then have "Router_route (router fed) ?p = Some (''actor'', [(''handle'', handle)])"
    using m only by (rule Router_route_only_match)
  then have "getHandleFromActorUri e fed url0 (url0\<lparr>pathname := ?p, search := [], hash := []\<rparr>)
               = Some handle"
    using u(1) by (simp add: getHandleFromActorUri_def origin_def)
  with uri show ?thesis by simp
qed

text \<open>
  Claim C5, as the code, the URL parser and the router of the spec have it. Let the actor
  route be a literal prefix, the variable \<open>handle\<close> and a literal suffix, and let no other
  route match the path built for the handle. For every handle whose built path the URL
  parser leaves as it is (an absolute path of plain characters without dot segments, on
  a base with a special scheme), \<open>getActorUri(h)\<close> is the base with that path and
  \<open>getHandleFromActorUri\<close> of it is \<open>h\<close>. And for every URL whose origin differs from
  the origin of the context, or whose path does not match the template of the actor
  route, \<open>getHandleFromActorUri\<close> is none.
\<close>

theorem getHandleFromActorUri_getActorUri:
  "(map_of (routes (router fed)) ''actor'' = Some (lit pre @ Var ''handle'' # lit suf)
      \<and> (\<forall>(n, t) \<in> set (routes (router fed)).
             (n, t) = (''actor'', lit pre @ Var ''handle'' # lit suf)
             \<or> match_parts t (pre @ pct_encode handle @ suf) = None)
      \<and> special_scheme (protocol url0)
      \<and> plain_absolute_path (pre @ pct_encode handle @ suf)
      \<and> dot_free (pre @ pct_encode handle @ suf) \<longrightarrow>
      getActorUri e fed url0 handle
        = Inr (url0\<lparr>pathname := pre @ pct_encode handle @ suf, search := [], hash := []\<rparr>)
      \<and> getHandleFromActorUri e fed url0
          (url0\<lparr>pathname := pre @ pct_encode handle @ suf, search := [], hash := []\<rparr>)
        = Some handle)
   \<and> (origin e actorUri \<noteq> origin e url0 \<longrightarrow> getHandleFromActorUri e fed url0 actorUri = None)
   \<and> ((\<forall>t. (''actor'', t) \<in> set (routes (router fed)) \<longrightarrow>
             match_parts t (pathname actorUri) = None) \<longrightarrow>
        getHandleFromActorUri e fed url0 actorUri = None)"
  using actor_round_trip [of fed pre suf handle url0 e]
    getHandleFromActorUri_none [of e actorUri url0 fed]
  by blast

lemma example_registered_eq:
  "example_registered
     = example_federation
         \<lparr>router := \<lparr>routes = [(''webfinger'', [Lit ''/.well-known/webfinger'']),
                               (''nodeInfoJrd'', [Lit ''/.well-known/nodeinfo'']),
                               (''actor'', [Lit ''/users/'', Var ''handle''])]\<rparr>,
          actorCallbacks := Some \<lparr>dispatcher = Some (Callback 1), keyPairDispatcher = None,
                                  authorizePredicate = None\<rparr>\<rparr>"
  by (simp add: example_registered_def setActorDispatcher_def Router_add_def Router_has_def
      lit_def example_federation_eq)

theorem getHandleFromActorUri_getActorUri_witness:
  "getActorUri world example_registered example_base ''john''
     = Inr (example_base\<lparr>pathname := ''/users/john''\<rparr>)
   \<and> getHandleFromActorUri world example_registered example_base
       (example_base\<lparr>pathname := ''/users/john''\<rparr>) = Some ''john''
   \<and> getActorUri world example_registered example_base ''a b''
     = Inr (example_base\<lparr>pathname := ''/users/a%20b''\<rparr>)
   \<and> getHandleFromActorUri world example_registered example_base
       (example_base\<lparr>pathname := ''/users/a%20b''\<rparr>) = Some ''a b''
   \<and> getHandleFromActorUri world example_registered example_base
       (example_base\<lparr>host := ''example.org'', pathname := ''/users/john''\<rparr>) = None
   \<and> getHandleFromActorUri world example_registered example_base
       (example_base\<lparr>pathname := ''/.well-known/nodeinfo''\<rparr>) = None"
proof -
  have r: "routes (router example_registered)
             = [(''webfinger'', [Lit ''/.well-known/webfinger'']),
                (''nodeInfoJrd'', [Lit ''/.well-known/nodeinfo'']),
                (''actor'', [Lit ''/users/'', Var ''handle''])]"
    by (simp add: example_registered_eq)
  have t: "map_of (routes (router example_registered)) ''actor''
             = Some (lit ''/users/'' @ Var ''handle'' # lit [])"
    by (simp add: r lit_def)
  have john: "pct_encode ''john'' = ''john''"
    by (simp add: pct_encode_def pct_encode_char_def unreserved_def)
  have a_b: "pct_encode ''a b'' = ''a%20b''"
    by (simp add: pct_encode_def pct_encode_char_def unreserved_def hex_digit_def)
  have only: "\<forall>(n, t) \<in> set (routes (router example_registered)).
                (n, t) = (''actor'', lit ''/users/'' @ Var ''handle'' # lit [])
                \<or> match_parts t (''/users/'' @ pct_encode ''john'' @ []) = None"
    "\<forall>(n, t) \<in> set (routes (router example_registered)).
                (n, t) = (''actor'', lit ''/users/'' @ Var ''handle'' # lit [])
                \<or> match_parts t (''/users/'' @ pct_encode ''a b'' @ []) = None"
    by (simp_all add: r lit_def john a_b)
  have u: "special_scheme (protocol example_base)"
    "plain_absolute_path (''/users/'' @ pct_encode ''john'' @ [])"
    "dot_free (''/users/'' @ pct_encode ''john'' @ [])"
    "plain_absolute_path (''/users/'' @ pct_encode ''a b'' @ [])"
    "dot_free (''/users/'' @ pct_encode ''a b'' @ [])"
    by (simp_all add: john a_b example_base_def special_scheme_def plain_absolute_path_def
        path_char_def dot_free_def single_dot_def double_dot_def)
  have base: "example_base\<lparr>pathname := p, search := [], hash := []\<rparr>
                = example_base\<lparr>pathname := p\<rparr>" for p
    by (simp add: example_base_def)
  have o: "origin world (example_base\<lparr>host := ''example.org'', pathname := ''/users/john''\<rparr>)
             \<noteq> origin world example_base"
    by (simp add: origin_def example_base_def special_scheme_def)
  have nr: "\<forall>t. (''actor'', t) \<in> set (routes (router example_registered)) \<longrightarrow>
                match_parts t (pathname (example_base\<lparr>pathname := ''/.well-known/nodeinfo''\<rparr>))
                  = None"
    by (simp add: r match_var.simps or_else_def)
  from getHandleFromActorUri_getActorUri
    [where fed = example_registered and pre = "''/users/''" and suf = "[]"
       and handle = "''john''" and ?url0.0 = example_base and e = world
       and actorUri = "example_base\<lparr>host := ''example.org'', pathname := ''/users/john''\<rparr>"]
    t only(1) u(1-3) o
  have "getActorUri world example_registered example_base ''john''
          = Inr (example_base\<lparr>pathname := ''/users/john''\<rparr>)"
    and "getHandleFromActorUri world example_registered example_base
          (example_base\<lparr>pathname := ''/users/john''\<rparr>) = Some ''john''"
    and "getHandleFromActorUri world example_registered example_base
          (example_base\<lparr>host := ''example.org'', pathname := ''/users/john''\<rparr>) = None"
    by (simp_all add: john base)
  moreover from getHandleFromActorUri_getActorUri
    [where fed = example_registered and pre = "''/users/''" and suf = "[]"
       and handle = "''a b''" and ?url0.0 = example_base and e = world
       and actorUri = "example_base\<lparr>pathname := ''/.well-known/nodeinfo''\<rparr>"]
    t only(2) u(1,4,5) nr
  have "getActorUri world example_registered example_base ''a b''
          = Inr (example_base\<lparr>pathname := ''/users/a%20b''\<rparr>)"
    and "getHandleFromActorUri world example_registered example_base
          (example_base\<lparr>pathname := ''/users/a%20b''\<rparr>) = Some ''a b''"
    and "getHandleFromActorUri world example_registered example_base
          (example_base\<lparr>pathname := ''/.well-known/nodeinfo''\<rparr>) = None"
    by (simp_all add: a_b base)
  ultimately show ?thesis by simp
qed

text \<open>
  The claim as stated fails for the handle \<open>..\<close>: the actor dispatcher is registered
  at \<open>/users/{handle}\<close>, the URL parser resolves the built path \<open>/users/..\<close> to \<open>/\<close>, so
  \<open>getActorUri("..")\<close> is the base itself, and \<open>getHandleFromActorUri\<close> of it is none.
\<close>

theorem getHandleFromActorUri_getActorUri_dot_dot:
  "snd (setActorDispatcher example_federation ''/users/{handle}'' (Callback 1)) = Inr ()
   \<and> example_registered = fst (setActorDispatcher example_federation ''/users/{handle}'' (Callback 1))
   \<and> getActorUri world example_registered example_base ''..'' = Inr example_base
   \<and> getHandleFromActorUri world example_registered example_base example_base = None"
proof -
  have r: "routes (router example_registered)
             = [(''webfinger'', [Lit ''/.well-known/webfinger'']),
                (''nodeInfoJrd'', [Lit ''/.well-known/nodeinfo'']),
                (''actor'', [Lit ''/users/'', Var ''handle''])]"
    by (simp add: example_registered_eq)
  have reg: "snd (setActorDispatcher example_federation ''/users/{handle}'' (Callback 1)) = Inr ()"
    by (simp add: setActorDispatcher_def Router_add_def Router_has_def lit_def
        example_federation_eq)
  have dots: "getActorUri world example_registered example_base ''..'' = Inr example_base"
    by (simp add: getActorUri_def Router_build_def r pct_encode_def pct_encode_char_def
        unreserved_def new_URL_def example_base_def special_scheme_def plain_absolute_path_def
        path_char_def normalize_path_def single_dot_def double_dot_def)
  have root: "getHandleFromActorUri world example_registered example_base example_base = None"
    by (simp add: getHandleFromActorUri_def Router_route_def r example_base_def
        match_var.simps or_else_def)
  from reg dots root show ?thesis by (simp add: example_registered_def)
qed

end
